theory Spec2Isabelle
  imports Main
begin

section \<open>The dynamic collection engine: PL/pgSQL functions of readme.md\<close>

text \<open>
  The engine is the four PL/pgSQL functions \<^verbatim>\<open>create_content_type\<close>,
  \<^verbatim>\<open>insert_into_content_type\<close>, \<^verbatim>\<open>delete_content_type_data\<close> and
  \<^verbatim>\<open>update_content_type_data\<close>. Each one assembles a statement text from its
  arguments with the built-ins \<^verbatim>\<open>jsonb_each\<close>, \<^verbatim>\<open>quote_ident\<close>,
  \<^verbatim>\<open>quote_literal\<close>, \<^verbatim>\<open>format\<close> and \<^verbatim>\<open>TRIM\<close>, hands it to
  \<^verbatim>\<open>EXECUTE\<close> and turns the outcome into its return value. The built-ins are
  modelled after their PostgreSQL definitions; arguments are taken to be non-NULL.
\<close>

subsection \<open>JSONB values and their text form\<close>

text \<open>
  A JSONB number is a decimal: \<open>JNum m s\<close> stands for \<open>m / 10 ^ s\<close> and keeps its
  display scale \<open>s\<close>. An object holds its entries in the order \<^verbatim>\<open>jsonb_each\<close>
  yields them, which is the order JSONB stores them in: each key once, shorter keys
  first, keys of one length in byte order.
\<close>

datatype jsonb =
    JNull
  | JBool bool
  | JNum int nat
  | JStr string
  | JArr "jsonb list"
  | JObj "(string \<times> jsonb) list"

definition digit_char :: "nat \<Rightarrow> char" where
  "digit_char d = ''0123456789'' ! d"

function show_nat :: "nat \<Rightarrow> string" where
  "show_nat n = (if n < 10 then [digit_char n] else show_nat (n div 10) @ [digit_char (n mod 10)])"
  by pat_completeness auto
termination
  by (relation "measure (\<lambda>n. n)") auto

declare show_nat.simps [simp del]

text \<open>\<^verbatim>\<open>int4out\<close>: the decimal text of an integer, as \<^verbatim>\<open>format('%s', id)\<close> embeds it.\<close>

definition show_int :: "int \<Rightarrow> string" where
  "show_int i = (if i < 0 then CHR ''-'' # show_nat (nat (- i)) else show_nat (nat i))"

text \<open>\<^verbatim>\<open>numeric_out\<close>: sign, integer digits and, for a positive scale, the fraction.\<close>

definition show_numeric :: "int \<Rightarrow> nat \<Rightarrow> string" where
  "show_numeric m s =
     (let ds = show_nat (nat \<bar>m\<bar>);
          padded = replicate (Suc s - length ds) CHR ''0'' @ ds;
          whole = take (length padded - s) padded;
          frac = drop (length padded - s) padded
      in (if m < 0 then ''-'' else '''') @ whole @ (if s = 0 then '''' else CHR ''.'' # frac))"

definition hex_char :: "nat \<Rightarrow> char" where
  "hex_char d = ''0123456789abcdef'' ! d"

text \<open>\<^verbatim>\<open>escape_json\<close>: the JSON text of a string, between double quotes.\<close>

definition escape_json_char :: "char \<Rightarrow> string" where
  "escape_json_char c =
     (if c = CHR 0x08 then [CHR 0x5C, CHR ''b'']
      else if c = CHR 0x0C then [CHR 0x5C, CHR ''f'']
      else if c = CHR 0x0A then [CHR 0x5C, CHR ''n'']
      else if c = CHR 0x0D then [CHR 0x5C, CHR ''r'']
      else if c = CHR 0x09 then [CHR 0x5C, CHR ''t'']
      else if c = CHR 0x22 then [CHR 0x5C, CHR 0x22]
      else if c = CHR 0x5C then [CHR 0x5C, CHR 0x5C]
      else if (of_char c :: nat) < 32
        then [CHR 0x5C, CHR ''u'', CHR ''0'', CHR ''0'',
              hex_char ((of_char c :: nat) div 16), hex_char ((of_char c :: nat) mod 16)]
      else [c])"

definition escape_json :: "string \<Rightarrow> string" where
  "escape_json s = CHR 0x22 # concat (map escape_json_char s) @ [CHR 0x22]"

fun join :: "string \<Rightarrow> string list \<Rightarrow> string" where
  "join sep [] = []"
| "join sep [x] = x"
| "join sep (x # y # ys) = x @ sep @ join sep (y # ys)"

text \<open>The cast of a JSONB value to text (\<^verbatim>\<open>jsonb_out\<close>).\<close>

fun jsonb_out :: "jsonb \<Rightarrow> string" where
  "jsonb_out JNull = ''null''"
| "jsonb_out (JBool b) = (if b then ''true'' else ''false'')"
| "jsonb_out (JNum m s) = show_numeric m s"
| "jsonb_out (JStr s) = escape_json s"
| "jsonb_out (JArr xs) = ''['' @ join '', '' (map jsonb_out xs) @ '']''"
| "jsonb_out (JObj kvs) =
     ''{'' @ join '', '' (map (\<lambda>kv. escape_json (fst kv) @ '': '' @ jsonb_out (snd kv)) kvs) @ ''}''"

subsection \<open>Errors\<close>

text \<open>
  The exceptions a function body can raise: the two \<^verbatim>\<open>RAISE EXCEPTION\<close> of
  \<^verbatim>\<open>create_content_type\<close>, the one of \<^verbatim>\<open>insert_into_content_type\<close>, the error of
  \<^verbatim>\<open>jsonb_each\<close> on a value that is no object, and any failure of the store while
  it executes a statement.
\<close>

datatype error =
    UnsupportedType string
  | EmptySchema
  | EmptyRecord
  | NotAnObject
  | StoreError string

subsection \<open>The built-ins\<close>

definition jsonb_each :: "jsonb \<Rightarrow> error + (string \<times> jsonb) list" where
  "jsonb_each j = (case j of JObj kvs \<Rightarrow> Inr kvs | _ \<Rightarrow> Inl NotAnObject)"

text \<open>
  The operator \<^verbatim>\<open>->>\<close> with a key: the field as text, NULL (\<open>None\<close>) when the value
  is no object, has no such field, or holds JSON null there.
\<close>

definition jsonb_field_text :: "jsonb \<Rightarrow> string \<Rightarrow> string option" where
  "jsonb_field_text j k =
     (case j of
        JObj kvs \<Rightarrow>
          (case map_of kvs k of
             None \<Rightarrow> None
           | Some JNull \<Rightarrow> None
           | Some (JStr s) \<Rightarrow> Some s
           | Some v \<Rightarrow> Some (jsonb_out v))
      | _ \<Rightarrow> None)"

definition COALESCE :: "string option \<Rightarrow> string \<Rightarrow> string" where
  "COALESCE x d = (case x of None \<Rightarrow> d | Some s \<Rightarrow> s)"

text \<open>\<^verbatim>\<open>format\<close> writes a NULL argument of \<^verbatim>\<open>%s\<close> as the empty string.\<close>

definition format_s :: "string option \<Rightarrow> string" where
  "format_s x = (case x of None \<Rightarrow> [] | Some s \<Rightarrow> s)"

definition lower_alpha :: "char \<Rightarrow> bool" where
  "lower_alpha c = (c \<in> set ''abcdefghijklmnopqrstuvwxyz'')"

definition digit :: "char \<Rightarrow> bool" where
  "digit c = (c \<in> set ''0123456789'')"

text \<open>
  \<^verbatim>\<open>quote_ident\<close> and \<^verbatim>\<open>%I\<close>: the name is returned as it is when it starts with a
  lower-case letter or underscore, continues with lower-case letters, digits and
  underscores, and is no keyword of the store other than an unreserved one; otherwise
  it is put between double quotes with every embedded double quote doubled. The
  keyword table of the store is the parameter \<open>kw\<close>.
\<close>

definition safe_ident :: "string \<Rightarrow> bool" where
  "safe_ident s =
     (case s of
        [] \<Rightarrow> False
      | c # cs \<Rightarrow> (lower_alpha c \<or> c = CHR ''_'')
                 \<and> list_all (\<lambda>ch. lower_alpha ch \<or> digit ch \<or> ch = CHR ''_'') s)"

definition double_char :: "char \<Rightarrow> char \<Rightarrow> string" where
  "double_char q c = (if c = q then [c, c] else [c])"

definition quote_ident :: "(string \<Rightarrow> bool) \<Rightarrow> string \<Rightarrow> string" where
  "quote_ident kw s =
     (if safe_ident s \<and> \<not> kw s then s
      else CHR 0x22 # concat (map (double_char (CHR 0x22)) s) @ [CHR 0x22])"

text \<open>
  \<^verbatim>\<open>quote_literal\<close>: the text between single quotes, every single quote and every
  backslash doubled, with the prefix \<^verbatim>\<open>E\<close> when the text holds a backslash.
\<close>

definition literal_char :: "char \<Rightarrow> string" where
  "literal_char c = (if c = CHR 0x27 \<or> c = CHR 0x5C then [c, c] else [c])"

definition quote_literal :: "string \<Rightarrow> string" where
  "quote_literal s =
     (if CHR 0x5C \<in> set s then ''E'' else '''')
     @ CHR 0x27 # concat (map literal_char s) @ [CHR 0x27]"

text \<open>\<^verbatim>\<open>TRIM(BOTH cs FROM s)\<close> removes the characters of \<open>cs\<close> from both ends.\<close>

definition trim_both :: "string \<Rightarrow> string \<Rightarrow> string" where
  "trim_both cs s =
     rev (dropWhile (\<lambda>c. c \<in> set cs) (rev (dropWhile (\<lambda>c. c \<in> set cs) s)))"

subsection \<open>The store and \<^verbatim>\<open>EXECUTE\<close>\<close>

text \<open>
  The relational store is a parameter: \<open>exec stmt db\<close> returns the store's error or
  the number of rows affected, and the database after the statement. After an error
  that database is what a failed statement leaves behind: its changes to the tables
  are undone, the values it has drawn from sequences are not given back. An error
  of the executor is an error condition that the statement raises; the two
  conditions that \<^verbatim>\<open>WHEN OTHERS\<close> does not match, the cancellation of the query and
  a failed assertion, come from outside the statement and are not modelled. The
  world also records every statement text handed to the store.
\<close>

record 'db world =
  store :: 'db
  issued :: "string list"

type_synonym 'db executor = "string \<Rightarrow> 'db \<Rightarrow> (string + nat) \<times> 'db"

definition EXECUTE ::
  "'db executor \<Rightarrow> string \<Rightarrow> 'db world \<Rightarrow> (error + nat) \<times> 'db world" where
  "EXECUTE exec stmt w =
     (case exec stmt (store w) of
        (Inl e, db') \<Rightarrow> (Inl (StoreError e), \<lparr>store = db', issued = issued w @ [stmt]\<rparr>)
      | (Inr n, db') \<Rightarrow> (Inr n, \<lparr>store = db', issued = issued w @ [stmt]\<rparr>))"

subsection \<open>\<^verbatim>\<open>create_content_type\<close>\<close>

definition supported_types :: "string list" where
  "supported_types =
     [''TEXT'', ''INTEGER'', ''BOOLEAN'', ''TIMESTAMP'', ''DATE'', ''NUMERIC'', ''JSONB'']"

text \<open>
  \<^verbatim>\<open>col_type NOT IN (...)\<close> is NULL for a NULL \<open>col_type\<close>, and \<^verbatim>\<open>IF\<close> takes its
  branch only on true.
\<close>

definition not_in_supported :: "string option \<Rightarrow> bool" where
  "not_in_supported col_type =
     (case col_type of None \<Rightarrow> False | Some t \<Rightarrow> t \<notin> set supported_types)"

text \<open>The \<^verbatim>\<open>FOR\<close> loop over the schema entries, with \<open>column_definitions\<close> as accumulator.\<close>

fun column_definitions_loop ::
  "(string \<Rightarrow> bool) \<Rightarrow> (string \<times> jsonb) list \<Rightarrow> string \<Rightarrow> error + string" where
  "column_definitions_loop kw [] column_definitions = Inr column_definitions"
| "column_definitions_loop kw ((key, val) # rest) column_definitions =
     (let col_name = quote_ident kw key;
          col_type = jsonb_field_text val ''type'';
          constraints = COALESCE (jsonb_field_text val ''constraints'') ''''
      in if not_in_supported col_type then Inl (UnsupportedType (format_s col_type))
         else column_definitions_loop kw rest
                (column_definitions
                 @ col_name @ '' '' @ format_s col_type @ '' '' @ constraints @ '', ''))"

definition create_statement ::
  "(string \<Rightarrow> bool) \<Rightarrow> string \<Rightarrow> jsonb \<Rightarrow> error + string" where
  "create_statement kw table_name schema =
     (case jsonb_each schema of
        Inl e \<Rightarrow> Inl e
      | Inr entries \<Rightarrow>
          (case column_definitions_loop kw entries [] of
             Inl e \<Rightarrow> Inl e
           | Inr defs \<Rightarrow>
               (let column_definitions = trim_both '', '' defs
                in if column_definitions = [] then Inl EmptySchema
                   else Inr (''CREATE TABLE IF NOT EXISTS '' @ quote_ident kw table_name
                             @ '' (id SERIAL PRIMARY KEY, '' @ column_definitions @ '');''))))"

text \<open>
  The function has no exception handler: whatever is raised leaves it as an
  exception (\<open>Inl\<close>). Otherwise it returns its message.
\<close>

definition create_content_type ::
  "(string \<Rightarrow> bool) \<Rightarrow> 'db executor \<Rightarrow> string \<Rightarrow> jsonb \<Rightarrow> 'db world
     \<Rightarrow> (error + string) \<times> 'db world" where
  "create_content_type kw exec table_name schema w =
     (case create_statement kw table_name schema of
        Inl e \<Rightarrow> (Inl e, w)
      | Inr stmt \<Rightarrow>
          (case EXECUTE exec stmt w of
             (Inl e, w') \<Rightarrow> (Inl e, w')
           | (Inr n, w') \<Rightarrow>
               (Inr (''Table '' @ quote_ident kw table_name
                     @ '' created successfully (or already exists)''), w')))"

subsection \<open>\<^verbatim>\<open>insert_into_content_type\<close>\<close>

fun insert_loop ::
  "(string \<Rightarrow> bool) \<Rightarrow> (string \<times> jsonb) list \<Rightarrow> string \<times> string \<Rightarrow> string \<times> string" where
  "insert_loop kw [] acc = acc"
| "insert_loop kw ((key, val) # rest) (column_names, column_values) =
     insert_loop kw rest
       (column_names @ quote_ident kw key @ '', '',
        column_values @ quote_literal (jsonb_out val) @ '', '')"

definition insert_statement ::
  "(string \<Rightarrow> bool) \<Rightarrow> string \<Rightarrow> jsonb \<Rightarrow> error + string" where
  "insert_statement kw table_name data =
     (case jsonb_each data of
        Inl e \<Rightarrow> Inl e
      | Inr entries \<Rightarrow>
          (let (names, vals) = insert_loop kw entries ([], []);
               column_names = trim_both '', '' names;
               column_values = trim_both '', '' vals
           in if column_names = [] \<or> column_values = [] then Inl EmptyRecord
              else Inr (''INSERT INTO '' @ quote_ident kw table_name @ '' ('' @ column_names
                        @ '') VALUES ('' @ column_values @ '');'')))"

text \<open>
  \<^verbatim>\<open>EXCEPTION WHEN OTHERS THEN RETURN FALSE\<close>: every exception of the body ends in
  the result false. The block has one statement that touches the store; when that
  one fails, the store is as the failed statement left it.
\<close>

definition insert_into_content_type ::
  "(string \<Rightarrow> bool) \<Rightarrow> 'db executor \<Rightarrow> string \<Rightarrow> jsonb \<Rightarrow> 'db world
     \<Rightarrow> bool \<times> 'db world" where
  "insert_into_content_type kw exec table_name data w =
     (case insert_statement kw table_name data of
        Inl e \<Rightarrow> (False, w)
      | Inr stmt \<Rightarrow>
          (case EXECUTE exec stmt w of
             (Inl e, w') \<Rightarrow> (False, w')
           | (Inr n, w') \<Rightarrow> (True, w')))"

subsection \<open>\<^verbatim>\<open>delete_content_type_data\<close>\<close>

definition delete_statement :: "(string \<Rightarrow> bool) \<Rightarrow> string \<Rightarrow> int \<Rightarrow> string" where
  "delete_statement kw table_name record_id =
     ''DELETE FROM '' @ quote_ident kw table_name @ '' WHERE id = '' @ show_int record_id @ '';''"

definition delete_content_type_data ::
  "(string \<Rightarrow> bool) \<Rightarrow> 'db executor \<Rightarrow> string \<Rightarrow> int \<Rightarrow> 'db world \<Rightarrow> bool \<times> 'db world" where
  "delete_content_type_data kw exec table_name record_id w =
     (case EXECUTE exec (delete_statement kw table_name record_id) w of
        (Inl e, w') \<Rightarrow> (False, w')
      | (Inr row_count, w') \<Rightarrow> (if row_count > 0 then (True, w') else (False, w')))"

subsection \<open>\<^verbatim>\<open>update_content_type_data\<close>\<close>

fun update_loop :: "(string \<Rightarrow> bool) \<Rightarrow> (string \<times> jsonb) list \<Rightarrow> string \<Rightarrow> string" where
  "update_loop kw [] update_pairs = update_pairs"
| "update_loop kw ((key, val) # rest) update_pairs =
     update_loop kw rest
       (update_pairs @ quote_ident kw key @ '' = '' @ quote_literal (jsonb_out val) @ '', '')"

text \<open>
  The statement of an update: \<open>Inr None\<close> is the early \<^verbatim>\<open>RETURN FALSE\<close> on an empty
  \<open>update_pairs\<close>, before any statement text exists.
\<close>

definition update_statement ::
  "(string \<Rightarrow> bool) \<Rightarrow> string \<Rightarrow> int \<Rightarrow> jsonb \<Rightarrow> error + string option" where
  "update_statement kw table_name id' update_data =
     (case jsonb_each update_data of
        Inl e \<Rightarrow> Inl e
      | Inr entries \<Rightarrow>
          (let update_pairs = trim_both '', '' (update_loop kw entries [])
           in if update_pairs = [] then Inr None
              else Inr (Some (''UPDATE '' @ quote_ident kw table_name @ '' SET '' @ update_pairs
                              @ '' WHERE id = '' @ show_int id' @ '';''))))"

definition update_content_type_data ::
  "(string \<Rightarrow> bool) \<Rightarrow> 'db executor \<Rightarrow> string \<Rightarrow> int \<Rightarrow> jsonb \<Rightarrow> 'db world
     \<Rightarrow> bool \<times> 'db world" where
  "update_content_type_data kw exec table_name id' update_data w =
     (case update_statement kw table_name id' update_data of
        Inl e \<Rightarrow> (False, w)
      | Inr None \<Rightarrow> (False, w)
      | Inr (Some stmt) \<Rightarrow>
          (case EXECUTE exec stmt w of
             (Inl e, w') \<Rightarrow> (False, w')
           | (Inr row_count, w') \<Rightarrow> (row_count > 0, w')))"

subsection \<open>How the store reads a statement text: tokens\<close>

datatype token =
    Word string
  | QIdent string
  | StrLit string
  | NumLit string
  | Sym char

definition is_space :: "char \<Rightarrow> bool" where
  "is_space c = (c \<in> set [CHR '' '', CHR 0x09, CHR 0x0A, CHR 0x0D, CHR 0x0C, CHR 0x0B])"

definition upper_alpha :: "char \<Rightarrow> bool" where
  "upper_alpha c = (c \<in> set ''ABCDEFGHIJKLMNOPQRSTUVWXYZ'')"

definition ident_start :: "char \<Rightarrow> bool" where
  "ident_start c = (lower_alpha c \<or> upper_alpha c \<or> c = CHR ''_'' \<or> digit7 c)"

definition ident_cont :: "char \<Rightarrow> bool" where
  "ident_cont c = (ident_start c \<or> digit c \<or> c = CHR ''$'')"

definition to_lower :: "char \<Rightarrow> char" where
  "to_lower c =
     (case map_of (zip ''ABCDEFGHIJKLMNOPQRSTUVWXYZ'' ''abcdefghijklmnopqrstuvwxyz'') c of
        None \<Rightarrow> c
      | Some l \<Rightarrow> l)"

definition prepend :: "char \<Rightarrow> (string \<times> string) option \<Rightarrow> (string \<times> string) option" where
  "prepend c r = (case r of None \<Rightarrow> None | Some (body, rest) \<Rightarrow> Some (c # body, rest))"

fun scan_delimited :: "char \<Rightarrow> string \<Rightarrow> (string \<times> string) option" where
  "scan_delimited q [] = None"
| "scan_delimited q [c] = (if c = q then Some ([], []) else None)"
| "scan_delimited q (c # d # ds) =
     (if c = q then (if d = q then prepend q (scan_delimited q ds) else Some ([], d # ds))
      else prepend c (scan_delimited q (d # ds)))"

definition unescape :: "char \<Rightarrow> char option" where
  "unescape d =
     (if d = CHR ''b'' then Some (CHR 0x08)
      else if d = CHR ''f'' then Some (CHR 0x0C)
      else if d = CHR ''n'' then Some (CHR 0x0A)
      else if d = CHR ''r'' then Some (CHR 0x0D)
      else if d = CHR ''t'' then Some (CHR 0x09)
      else if d \<in> set ''01234567xuU'' then None
      else Some d)"

fun scan_escaped :: "string \<Rightarrow> (string \<times> string) option" where
  "scan_escaped [] = None"
| "scan_escaped [c] = (if c = CHR 0x27 then Some ([], []) else None)"
| "scan_escaped (c # d # ds) =
     (if c = CHR 0x5C then (case unescape d of None \<Rightarrow> None | Some ch \<Rightarrow> prepend ch (scan_escaped ds))
      else if c = CHR 0x27 then (if d = CHR 0x27 then prepend (CHR 0x27) (scan_escaped ds) else Some ([], d # ds))
      else prepend c (scan_escaped (d # ds)))"

definition starts_quote :: "string \<Rightarrow> bool" where
  "starts_quote cs = (case cs of [] \<Rightarrow> False | d # ds \<Rightarrow> d = CHR 0x27)"

definition begins :: "(char \<Rightarrow> bool) \<Rightarrow> string \<Rightarrow> bool" where
  "begins P cs = (case cs of [] \<Rightarrow> False | d # ds \<Rightarrow> P d)"

text \<open>
  One token from the front of a text. No token is read (\<open>None\<close>) from a quoted
  identifier of length zero, from a quote that is not closed, from an escape by
  code in an \<^verbatim>\<open>E\<close> string, from a number that runs into a word, from the start of
  a comment and from a dollar sign: what the store makes of these is not part of
  the model, the zero-length identifier apart, which it refuses (see
  \<open>zero_length_identifier\<close>).
\<close>

fun next_token :: "string \<Rightarrow> (token \<times> string) option" where
  "next_token [] = None"
| "next_token (c # cs) =
     (if c = CHR 0x22 then
        (case scan_delimited (CHR 0x22) cs of
           None \<Rightarrow> None
         | Some (body, rest) \<Rightarrow> if body = [] then None else Some (QIdent body, rest))
      else if c = CHR 0x27 then
        (case scan_delimited (CHR 0x27) cs of
           None \<Rightarrow> None
         | Some (body, rest) \<Rightarrow> Some (StrLit body, rest))
      else if (c = CHR ''E'' \<or> c = CHR ''e'') \<and> starts_quote cs then
        (case scan_escaped (tl cs) of
           None \<Rightarrow> None
         | Some (body, rest) \<Rightarrow> Some (StrLit body, rest))
      else if ident_start c then
        Some (Word (map to_lower (c # takeWhile ident_cont cs)), dropWhile ident_cont cs)
      else if digit c then
        (if begins ident_start (dropWhile digit cs) then None
         else Some (NumLit (c # takeWhile digit cs), dropWhile digit cs))
      else if c = CHR ''$'' \<or> (c = CHR ''-'' \<and> begins (\<lambda>d. d = CHR ''-'') cs)
              \<or> (c = CHR ''/'' \<and> begins (\<lambda>d. d = CHR ''*'') cs) then None
      else Some (Sym c, cs))"

lemma scan_delimited_length: "scan_delimited q s = Some (body, rest) \<Longrightarrow> length rest \<le> length s"
proof (induction q s arbitrary: body rule: scan_delimited.induct)
  case (3 q c d ds)
  then show ?case
    by (fastforce simp: prepend_def split: if_splits option.splits)
qed (auto split: if_splits)

lemma scan_escaped_length: "scan_escaped s = Some (body, rest) \<Longrightarrow> length rest \<le> length s"
proof (induction s arbitrary: body rule: scan_escaped.induct)
  case (3 c d ds)
  then show ?case
    by (fastforce simp: prepend_def split: if_splits option.splits)
qed (auto split: if_splits)

lemma next_token_length: "next_token s = Some (t, rest) \<Longrightarrow> length rest < length s"
proof (cases s)
  case Nil
  then show "next_token s = Some (t, rest) \<Longrightarrow> ?thesis" by simp
next
  case (Cons c cs)
  assume "next_token s = Some (t, rest)"
  with Cons show ?thesis
    using scan_delimited_length [of _ cs] scan_escaped_length [of "tl cs"]
      length_dropWhile_le [of ident_cont cs] length_dropWhile_le [of digit cs]
    by (fastforce split: if_splits option.splits simp: le_imp_less_Suc)
qed

function tokenize :: "string \<Rightarrow> token list option" where
  "tokenize s =
     (case dropWhile is_space s of
        [] \<Rightarrow> Some []
      | c # cs \<Rightarrow>
          (case next_token (c # cs) of
             None \<Rightarrow> None
           | Some (t, rest) \<Rightarrow> (case tokenize rest of None \<Rightarrow> None | Some ts \<Rightarrow> Some (t # ts))))"
  by pat_completeness auto
termination
proof (relation "measure length")
  show "wf (measure length)" by simp
next
  fix s :: string and c cs x t rest
  assume a: "dropWhile is_space s = c # cs" and b: "next_token (c # cs) = Some x" and c: "(t, rest) = x"
  have "length rest < length (c # cs)"
    using b c next_token_length [of "c # cs" t rest] by simp
  also have "\<dots> \<le> length s"
    using length_dropWhile_le [of is_space s] a by simp
  finally show "(rest, s) \<in> measure length" by simp
qed

declare tokenize.simps [simp del]

text \<open>
  Where the reading stops: the text in front of which no token can be read, empty
  when the whole text is read.
\<close>

function unread :: "string \<Rightarrow> string" where
  "unread s =
     (case dropWhile is_space s of
        [] \<Rightarrow> []
      | c # cs \<Rightarrow>
          (case next_token (c # cs) of
             None \<Rightarrow> c # cs
           | Some (t, rest) \<Rightarrow> unread rest))"
  by pat_completeness auto
termination
proof (relation "measure length")
  show "wf (measure length)" by simp
next
  fix s :: string and c cs x t rest
  assume a: "dropWhile is_space s = c # cs" and b: "next_token (c # cs) = Some x" and c: "(t, rest) = x"
  have "length rest < length (c # cs)"
    using b c next_token_length [of "c # cs" t rest] by simp
  also have "\<dots> \<le> length s"
    using length_dropWhile_le [of is_space s] a by simp
  finally show "(rest, s) \<in> measure length" by simp
qed

declare unread.simps [simp del]

text \<open>
  The store refuses a text in which, token after token, it comes upon a quoted
  identifier with nothing between the quotes.
\<close>

definition zero_length_identifier :: "string \<Rightarrow> bool" where
  "zero_length_identifier s =
     (case unread s of
        c # d # r \<Rightarrow> c = CHR 0x22 \<and> d = CHR 0x22 \<and> \<not> begins (\<lambda>e. e = CHR 0x22) r
      | _ \<Rightarrow> False)"

text \<open>
  An identifier is a quoted identifier or a word that is no reserved keyword;
  \<open>ident_token\<close> is the token that \<^verbatim>\<open>quote_ident\<close> writes for a name.
\<close>

definition ident_token :: "(string \<Rightarrow> bool) \<Rightarrow> string \<Rightarrow> token" where
  "ident_token kw name = (if safe_ident name \<and> \<not> kw name then Word name else QIdent name)"

definition ident_of :: "(string \<Rightarrow> bool) \<Rightarrow> token \<Rightarrow> string option" where
  "ident_of kw t =
     (case t of
        Word w \<Rightarrow> if kw w then None else Some w
      | QIdent s \<Rightarrow> Some s
      | _ \<Rightarrow> None)"


section \<open>A relational store for the statements of the engine\<close>

text \<open>
  The store that \<^verbatim>\<open>EXECUTE\<close> talks to is PostgreSQL. The model below covers a part
  of it: texts of one or more statements of the four forms the engine writes, read
  from the text by \<open>tokenize\<close>; tables with typed columns, the column constraints
  \<^verbatim>\<open>NOT NULL\<close>, \<^verbatim>\<open>UNIQUE\<close>, \<^verbatim>\<open>PRIMARY KEY\<close> and \<^verbatim>\<open>DEFAULT\<close> with a literal; one sequence per table for its \<^verbatim>\<open>SERIAL\<close> column; values of the
  types text, integer and boolean. The model answers \<open>None\<close> to whatever lies outside
  this part (other statements and constraints, other types, input of the remaining
  types, identifiers longer than the 63 bytes the store keeps, table names that
  the store may have given to a catalog, a sequence or an index): the store may
  well execute such a text, and nothing is said about it here. Where the model does
  answer, with a result or with a refusal, it answers as the store does.
\<close>

subsection \<open>Statements\<close>

datatype literal = LStr string | LNum int | LBool bool | LNull

record column_def =
  cname :: string
  ctype :: string
  cnotnull :: bool
  cunique :: bool
  cprimary :: bool
  cdefault :: "literal option"

datatype statement =
    CreateTable string "column_def list"
  | InsertRow string "string list" "literal list"
  | UpdateRows string "(string \<times> literal) list" int
  | DeleteRows string int

text \<open>The value of a digit is its place among the ten digits.\<close>

definition digit_val :: "char \<Rightarrow> nat" where
  "digit_val c = length (takeWhile (\<lambda>d. d \<noteq> c) ''0123456789'')"

definition read_nat :: "string \<Rightarrow> nat" where
  "read_nat ds = foldl (\<lambda>n c. 10 * n + digit_val c) 0 ds"

definition literal_of :: "token \<Rightarrow> literal option" where
  "literal_of t =
     (case t of
        StrLit s \<Rightarrow> Some (LStr s)
      | NumLit d \<Rightarrow> Some (LNum (int (read_nat d)))
      | Word w \<Rightarrow>
          if w = ''true'' then Some (LBool True)
          else if w = ''false'' then Some (LBool False)
          else if w = ''null'' then Some LNull
          else None
      | _ \<Rightarrow> None)"

text \<open>
  The column definitions of a \<^verbatim>\<open>CREATE TABLE\<close>: the tokens are cut at the commas,
  up to the closing parenthesis, and each piece is a name, a type and constraints.
\<close>

fun split_columns :: "token list \<Rightarrow> token list \<Rightarrow> (token list list \<times> token list) option" where
  "split_columns piece [] = None"
| "split_columns piece (t # ts) =
     (if t = Sym (CHR '')'') then Some ([piece], ts)
      else if t = Sym (CHR '','') then
        (case split_columns [] ts of
           None \<Rightarrow> None
         | Some (pieces, rest) \<Rightarrow> Some (piece # pieces, rest))
      else split_columns (piece @ [t]) ts)"

text \<open>
  The constraints of a column, each kind at most once: the store refuses some
  repetitions, and they are left out of the model.
\<close>

fun parse_constraints :: "token list \<Rightarrow> column_def \<Rightarrow> column_def option" where
  "parse_constraints [] c = Some c"
| "parse_constraints [t] c =
     (if t = Word ''unique'' \<and> \<not> cunique c then Some (c\<lparr>cunique := True\<rparr>) else None)"
| "parse_constraints (t # u # ts) c =
     (if t = Word ''unique'' \<and> \<not> cunique c
        then parse_constraints (u # ts) (c\<lparr>cunique := True\<rparr>)
      else if t = Word ''not'' \<and> u = Word ''null'' \<and> \<not> cnotnull c
        then parse_constraints ts (c\<lparr>cnotnull := True\<rparr>)
      else if t = Word ''primary'' \<and> u = Word ''key'' \<and> \<not> cprimary c
        then parse_constraints ts (c\<lparr>cprimary := True\<rparr>)
      else if t = Word ''default'' \<and> cdefault c = None then
        (case literal_of u of
           None \<Rightarrow> None
         | Some l \<Rightarrow> parse_constraints ts (c\<lparr>cdefault := Some l\<rparr>))
      else None)"

definition parse_column :: "(string \<Rightarrow> bool) \<Rightarrow> token list \<Rightarrow> column_def option" where
  "parse_column kw piece =
     (case piece of
        n # Word ty # cs \<Rightarrow>
          (case ident_of kw n of
             None \<Rightarrow> None
           | Some name \<Rightarrow>
               parse_constraints cs
                 \<lparr>cname = name, ctype = ty, cnotnull = False, cunique = False,
                  cprimary = False, cdefault = None\<rparr>)
      | _ \<Rightarrow> None)"

definition parse_columns ::
  "(string \<Rightarrow> bool) \<Rightarrow> token list \<Rightarrow> (column_def list \<times> token list) option" where
  "parse_columns kw ts =
     (case split_columns [] ts of
        None \<Rightarrow> None
      | Some (pieces, rest) \<Rightarrow>
          (case those (map (parse_column kw) pieces) of
             None \<Rightarrow> None
           | Some cols \<Rightarrow> Some (cols, rest)))"

text \<open>Identifiers separated by commas, up to the closing parenthesis.\<close>

fun parse_idents :: "(string \<Rightarrow> bool) \<Rightarrow> token list \<Rightarrow> (string list \<times> token list) option" where
  "parse_idents kw (n # Sym s # ts) =
     (case ident_of kw n of
        None \<Rightarrow> None
      | Some name \<Rightarrow>
          (if s = CHR '')'' then Some ([name], ts)
           else if s = CHR '','' then
             (case parse_idents kw ts of
                None \<Rightarrow> None
              | Some (names, ts') \<Rightarrow> Some (name # names, ts'))
           else None))"
| "parse_idents kw ts = None"

text \<open>Literals separated by commas, up to the closing parenthesis.\<close>

fun parse_values :: "token list \<Rightarrow> (literal list \<times> token list) option" where
  "parse_values (t # Sym s # ts) =
     (case literal_of t of
        None \<Rightarrow> None
      | Some v \<Rightarrow>
          (if s = CHR '')'' then Some ([v], ts)
           else if s = CHR '','' then
             (case parse_values ts of
                None \<Rightarrow> None
              | Some (vs, ts') \<Rightarrow> Some (v # vs, ts'))
           else None))"
| "parse_values ts = None"

text \<open>Assignments \<^verbatim>\<open>column = literal\<close> separated by commas, up to the keyword behind them.\<close>

fun parse_assignments ::
  "(string \<Rightarrow> bool) \<Rightarrow> token list \<Rightarrow> ((string \<times> literal) list \<times> token list) option" where
  "parse_assignments kw (n # e # v # s # ts) =
     (case (ident_of kw n, literal_of v) of
        (Some name, Some l) \<Rightarrow>
          (if e \<noteq> Sym (CHR ''='') then None
           else if s = Sym (CHR '','') then
             (case parse_assignments kw ts of
                None \<Rightarrow> None
              | Some (as, ts') \<Rightarrow> Some ((name, l) # as, ts'))
           else Some ([(name, l)], s # ts))
      | _ \<Rightarrow> None)"
| "parse_assignments kw ts = None"

text \<open>\<^verbatim>\<open>WHERE id = n\<close> and the end of the statement.\<close>

definition parse_where :: "token list \<Rightarrow> int option" where
  "parse_where ts =
     (if take 3 ts = [Word ''where'', Word ''id'', Sym (CHR ''='')] then
        (case drop 3 ts of
           [NumLit d] \<Rightarrow> Some (int (read_nat d))
         | [NumLit d, e] \<Rightarrow> if e = Sym (CHR '';'') then Some (int (read_nat d)) else None
         | [m, NumLit d] \<Rightarrow> if m = Sym (CHR ''-'') then Some (- int (read_nat d)) else None
         | [m, NumLit d, e] \<Rightarrow>
             if m = Sym (CHR ''-'') \<and> e = Sym (CHR '';'') then Some (- int (read_nat d)) else None
         | _ \<Rightarrow> None)
      else None)"

definition statement_end :: "token list \<Rightarrow> bool" where
  "statement_end ts = (ts = [] \<or> ts = [Sym (CHR '';'')])"

definition parse_create :: "(string \<Rightarrow> bool) \<Rightarrow> token list \<Rightarrow> statement option" where
  "parse_create kw ts =
     (case ts of
        n # p # ts1 \<Rightarrow>
          (case ident_of kw n of
             None \<Rightarrow> None
           | Some name \<Rightarrow>
               if p \<noteq> Sym (CHR ''('') then None
               else (case parse_columns kw ts1 of
                       None \<Rightarrow> None
                     | Some (cols, ts2) \<Rightarrow>
                         if statement_end ts2 then Some (CreateTable name cols) else None))
      | _ \<Rightarrow> None)"

definition parse_insert :: "(string \<Rightarrow> bool) \<Rightarrow> token list \<Rightarrow> statement option" where
  "parse_insert kw ts =
     (case ts of
        n # p # ts1 \<Rightarrow>
          (case ident_of kw n of
             None \<Rightarrow> None
           | Some name \<Rightarrow>
               if p \<noteq> Sym (CHR ''('') then None
               else (case parse_idents kw ts1 of
                       None \<Rightarrow> None
                     | Some (cols, ts2) \<Rightarrow>
                         if take 2 ts2 \<noteq> [Word ''values'', Sym (CHR ''('')] then None
                         else (case parse_values (drop 2 ts2) of
                                 None \<Rightarrow> None
                               | Some (vals, ts3) \<Rightarrow>
                                   if statement_end ts3 then Some (InsertRow name cols vals)
                                   else None)))
      | _ \<Rightarrow> None)"

definition parse_update :: "(string \<Rightarrow> bool) \<Rightarrow> token list \<Rightarrow> statement option" where
  "parse_update kw ts =
     (case ts of
        n # s # ts1 \<Rightarrow>
          (case ident_of kw n of
             None \<Rightarrow> None
           | Some name \<Rightarrow>
               if s \<noteq> Word ''set'' then None
               else (case parse_assignments kw ts1 of
                       None \<Rightarrow> None
                     | Some (as, ts2) \<Rightarrow>
                         (case parse_where ts2 of
                            None \<Rightarrow> None
                          | Some i \<Rightarrow> Some (UpdateRows name as i))))
      | _ \<Rightarrow> None)"

definition parse_delete :: "(string \<Rightarrow> bool) \<Rightarrow> token list \<Rightarrow> statement option" where
  "parse_delete kw ts =
     (case ts of
        n # ts1 \<Rightarrow>
          (case ident_of kw n of
             None \<Rightarrow> None
           | Some name \<Rightarrow>
               (case parse_where ts1 of
                  None \<Rightarrow> None
                | Some i \<Rightarrow> Some (DeleteRows name i)))
      | _ \<Rightarrow> None)"

definition parse_tokens :: "(string \<Rightarrow> bool) \<Rightarrow> token list \<Rightarrow> statement option" where
  "parse_tokens kw ts =
     (if take 5 ts = [Word ''create'', Word ''table'', Word ''if'', Word ''not'', Word ''exists'']
        then parse_create kw (drop 5 ts)
      else if take 2 ts = [Word ''insert'', Word ''into''] then parse_insert kw (drop 2 ts)
      else if take 1 ts = [Word ''update''] then parse_update kw (drop 1 ts)
      else if take 2 ts = [Word ''delete'', Word ''from''] then parse_delete kw (drop 2 ts)
      else None)"

definition parse_statement :: "(string \<Rightarrow> bool) \<Rightarrow> string \<Rightarrow> statement option" where
  "parse_statement kw text = (case tokenize text of None \<Rightarrow> None | Some ts \<Rightarrow> parse_tokens kw ts)"

subsection \<open>Several statements in one text\<close>

text \<open>
  A text may hold several statements, each closed by a semicolon; the last one may
  do without.
\<close>

fun split_statements :: "token list \<Rightarrow> token list \<Rightarrow> token list list" where
  "split_statements piece [] = (if piece = [] then [] else [piece])"
| "split_statements piece (t # ts) =
     (if t = Sym (CHR '';'') then (piece @ [t]) # split_statements [] ts
      else split_statements (piece @ [t]) ts)"

definition parse_script :: "(string \<Rightarrow> bool) \<Rightarrow> token list \<Rightarrow> statement list option" where
  "parse_script kw ts = those (map (parse_tokens kw) (split_statements [] ts))"

subsection \<open>Tables and values\<close>

datatype datum = DText string | DInt int | DBool bool

text \<open>A row holds the cells that are not NULL, by column name.\<close>

type_synonym row = "(string \<times> datum) list"

record table =
  columns :: "column_def list"
  rows :: "row list"
  next_id :: int

type_synonym database = "(string \<times> table) list"

text \<open>
  What the model returns for a statement on a database: \<open>None\<close> when the statement
  is outside the model, otherwise the store's error or the number of rows affected,
  with the database after the statement.
\<close>

type_synonym outcome = "((string + nat) \<times> database) option"

definition integer_type :: "string \<Rightarrow> bool" where
  "integer_type ty = (ty \<in> set [''serial'', ''integer'', ''int'', ''int4''])"

definition known_type :: "string \<Rightarrow> bool" where
  "known_type ty =
     (ty \<in> set [''serial'', ''integer'', ''int'', ''int4'', ''text'', ''boolean'', ''bool'',
                 ''timestamp'', ''date'', ''numeric'', ''jsonb''])"

definition strip_spaces :: "string \<Rightarrow> string" where
  "strip_spaces s = rev (dropWhile is_space (rev (dropWhile is_space s)))"

text \<open>
  The input of an integer: spaces, a sign, decimal digits, spaces. A text that has
  no digit in the place of the first one is refused. Digits followed by anything
  but spaces are left open: the store refuses most such texts, and newer versions
  of it read some as numbers.
\<close>

definition read_int :: "string \<Rightarrow> (string + int) option" where
  "read_int s =
     (let body = dropWhile is_space s;
          signed = (take 1 body = ''-'' \<or> take 1 body = ''+'');
          ds = (if signed then drop 1 body else body);
          n = int (read_nat (takeWhile digit ds))
      in if takeWhile digit ds = [] then Some (Inl ''invalid input syntax for type integer'')
         else if list_all is_space (dropWhile digit ds)
           then Some (Inr (if take 1 body = ''-'' then - n else n))
         else None)"

text \<open>The input of a boolean: the spellings the store accepts, in any case.\<close>

definition read_bool :: "string \<Rightarrow> bool option" where
  "read_bool s =
     (let w = map to_lower (strip_spaces s)
      in if w \<in> set [''t'', ''tr'', ''tru'', ''true'', ''y'', ''ye'', ''yes'', ''on'', ''1'']
           then Some True
         else if w \<in> set [''f'', ''fa'', ''fal'', ''fals'', ''false'', ''n'', ''no'', ''of'',
                           ''off'', ''0'']
           then Some False
         else None)"

definition int4 :: "int \<Rightarrow> string + datum option" where
  "int4 i =
     (if - 2147483648 \<le> i \<and> i \<le> 2147483647 then Inr (Some (DInt i))
      else Inl ''integer out of range'')"

text \<open>
  A literal as a value of a column type: \<open>None\<close> when the model does not cover the
  conversion, otherwise the store's error or the value, the value \<open>None\<close> being NULL.
\<close>

definition coerce :: "string \<Rightarrow> literal \<Rightarrow> (string + datum option) option" where
  "coerce ty l =
     (case l of
        LNull \<Rightarrow> Some (Inr None)
      | LStr s \<Rightarrow>
          if ty = ''text'' then Some (Inr (Some (DText s)))
          else if integer_type ty then
            (case read_int s of
               None \<Rightarrow> None
             | Some (Inl e) \<Rightarrow> Some (Inl e)
             | Some (Inr i) \<Rightarrow> Some (int4 i))
          else if ty = ''boolean'' \<or> ty = ''bool'' then
            (case read_bool s of
               None \<Rightarrow> Some (Inl ''invalid input syntax for type boolean'')
             | Some b \<Rightarrow> Some (Inr (Some (DBool b))))
          else None
      | LNum i \<Rightarrow> if integer_type ty then Some (int4 i) else None
      | LBool b \<Rightarrow> if ty = ''boolean'' \<or> ty = ''bool'' then Some (Inr (Some (DBool b))) else None)"

subsection \<open>Execution\<close>

definition must_not_null :: "column_def \<Rightarrow> bool" where
  "must_not_null c = (cnotnull c \<or> cprimary c \<or> ctype c = ''serial'')"

definition must_be_unique :: "column_def \<Rightarrow> bool" where
  "must_be_unique c = (cunique c \<or> cprimary c)"

definition values_of :: "string \<Rightarrow> row list \<Rightarrow> datum list" where
  "values_of k rs = concat (map (\<lambda>r. case map_of r k of None \<Rightarrow> [] | Some d \<Rightarrow> [d]) rs)"

definition unique_ok :: "table \<Rightarrow> bool" where
  "unique_ok tbl =
     list_all (\<lambda>c. if must_be_unique c then distinct (values_of (cname c) (rows tbl)) else True)
       (columns tbl)"

definition put :: "database \<Rightarrow> string \<Rightarrow> table \<Rightarrow> database" where
  "put db t tbl = map (\<lambda>entry. if fst entry = t then (t, tbl) else entry) db"

text \<open>The default of a column, read as a value of the column's type.\<close>

definition default_reading :: "column_def \<Rightarrow> (string + datum option) option" where
  "default_reading c =
     (case cdefault c of None \<Rightarrow> Some (Inr None) | Some l \<Rightarrow> coerce (ctype c) l)"

definition default_errors :: "column_def list \<Rightarrow> string list" where
  "default_errors cols =
     concat (map (\<lambda>c. case default_reading c of Some (Inl e) \<Rightarrow> [e] | _ \<Rightarrow> []) cols)"

definition default_value :: "column_def \<Rightarrow> datum option" where
  "default_value c = (case default_reading c of Some (Inr v) \<Rightarrow> v | _ \<Rightarrow> None)"

text \<open>
  The columns the model can keep: at most 1600 of them, with types it knows, at
  most one serial column (the table record has one sequence), and defaults it can
  read.
\<close>

definition modelled_columns :: "column_def list \<Rightarrow> bool" where
  "modelled_columns cols =
     (length cols \<le> 1600
      \<and> list_all (\<lambda>c. known_type (ctype c)) cols
      \<and> length (filter (\<lambda>c. ctype c = ''serial'') cols) \<le> 1
      \<and> list_all (\<lambda>c. default_reading c \<noteq> None) cols)"

text \<open>The names of the columns that every table of the store has by itself.\<close>

definition system_columns :: "string list" where
  "system_columns = [''tableoid'', ''xmin'', ''cmin'', ''xmax'', ''cmax'', ''ctid'']"

text \<open>
  \<^verbatim>\<open>CREATE TABLE IF NOT EXISTS\<close>: nothing happens, and nothing is looked at, when the
  table is there. Otherwise the store refuses a second primary key, then a column
  name that occurs twice, then the name of a system column, then a default that is
  no value of its column's type.
\<close>

definition exec_create :: "database \<Rightarrow> string \<Rightarrow> column_def list \<Rightarrow> outcome" where
  "exec_create db t cols =
     (if t \<in> set (map fst db) then Some (Inr 0, db)
      else if \<not> modelled_columns cols then None
      else if length (filter cprimary cols) > 1
        then Some (Inl ''multiple primary keys for a table are not allowed'', db)
      else if \<not> distinct (map cname cols) then Some (Inl ''column specified more than once'', db)
      else if list_ex (\<lambda>c. cname c \<in> set system_columns) cols
        then Some (Inl ''column name conflicts with a system column name'', db)
      else (case default_errors cols of
              e # es \<Rightarrow> Some (Inl e, db)
            | [] \<Rightarrow> Some (Inr 0, db @ [(t, \<lparr>columns = cols, rows = [], next_id = 1\<rparr>)])))"

text \<open>The values of a statement, each as a value of its column's type, in their order.\<close>

fun coerce_assignments ::
  "column_def list \<Rightarrow> (string \<times> literal) list
     \<Rightarrow> (string + (string \<times> datum option) list) option" where
  "coerce_assignments cols [] = Some (Inr [])"
| "coerce_assignments cols ((k, l) # rest) =
     (case find (\<lambda>c. cname c = k) cols of
        None \<Rightarrow> Some (Inl ''column does not exist'')
      | Some c \<Rightarrow>
          (case coerce (ctype c) l of
             None \<Rightarrow> None
           | Some (Inl e) \<Rightarrow> Some (Inl e)
           | Some (Inr v) \<Rightarrow>
               (case coerce_assignments cols rest of
                  None \<Rightarrow> None
                | Some (Inl e) \<Rightarrow> Some (Inl e)
                | Some (Inr vs) \<Rightarrow> Some (Inr ((k, v) # vs)))))"

text \<open>
  The cell of a new row in column \<open>c\<close>: the value given for the column, or the next
  value of the sequence for a serial column, or the column's default, or NULL.
\<close>

definition new_cell :: "int \<Rightarrow> (string \<times> datum option) list \<Rightarrow> column_def \<Rightarrow> datum option" where
  "new_cell nid given c =
     (case map_of given (cname c) of
        Some v \<Rightarrow> v
      | None \<Rightarrow> if ctype c = ''serial'' then Some (DInt nid) else default_value c)"

fun build_row :: "(column_def \<Rightarrow> datum option) \<Rightarrow> column_def list \<Rightarrow> string + row" where
  "build_row cell [] = Inr []"
| "build_row cell (c # cs) =
     (case cell c of
        None \<Rightarrow>
          if must_not_null c then Inl ''null value violates not-null constraint''
          else build_row cell cs
      | Some d \<Rightarrow>
          (case build_row cell cs of Inl e \<Rightarrow> Inl e | Inr r \<Rightarrow> Inr ((cname c, d) # r)))"

text \<open>
  An insert of one row. The names and the values are checked while the store reads
  the statement. Then the row is made, and with it the next value of the sequence
  is drawn when the statement gives no value for the serial column; the
  constraints are checked on the row that was made, so that a row they refuse has
  used up its value of the sequence.
\<close>

definition exec_insert :: "database \<Rightarrow> string \<Rightarrow> string list \<Rightarrow> literal list \<Rightarrow> outcome" where
  "exec_insert db t cols vals =
     (case map_of db t of
        None \<Rightarrow> Some (Inl ''relation does not exist'', db)
      | Some tbl \<Rightarrow>
          if \<not> modelled_columns (columns tbl) \<or> 2147483647 < next_id tbl then None
          else if \<not> list_all (\<lambda>k. k \<in> set (map cname (columns tbl))) cols
            then Some (Inl ''column does not exist'', db)
          else if \<not> distinct cols then Some (Inl ''column specified more than once'', db)
          else if length cols \<noteq> length vals
            then Some (Inl ''INSERT has a different number of columns and values'', db)
          else
            (case coerce_assignments (columns tbl) (zip cols vals) of
               None \<Rightarrow> None
             | Some (Inl e) \<Rightarrow> Some (Inl e, db)
             | Some (Inr given) \<Rightarrow>
                 (let drawn = list_ex (\<lambda>c. ctype c = ''serial'' \<and> cname c \<notin> set cols) (columns tbl);
                      seq = tbl\<lparr>next_id := (if drawn then next_id tbl + 1 else next_id tbl)\<rparr>
                  in case build_row (new_cell (next_id tbl) given) (columns tbl) of
                       Inl e \<Rightarrow> Some (Inl e, put db t seq)
                     | Inr r \<Rightarrow>
                         if unique_ok (seq\<lparr>rows := rows tbl @ [r]\<rparr>)
                         then Some (Inr 1, put db t (seq\<lparr>rows := rows tbl @ [r]\<rparr>))
                         else Some (Inl ''duplicate key value violates unique constraint'',
                                    put db t seq))))"

text \<open>The rows that \<^verbatim>\<open>WHERE id = i\<close> selects.\<close>

definition selected :: "int \<Rightarrow> row \<Rightarrow> bool" where
  "selected i r = (map_of r ''id'' = Some (DInt i))"

definition id_column_ok :: "table \<Rightarrow> bool" where
  "id_column_ok tbl = list_ex (\<lambda>c. cname c = ''id'' \<and> integer_type (ctype c)) (columns tbl)"

text \<open>The cell of an updated row in column \<open>c\<close>: the value assigned, or the old one.\<close>

definition updated_cell :: "(string \<times> datum option) list \<Rightarrow> row \<Rightarrow> column_def \<Rightarrow> datum option" where
  "updated_cell assigned r c =
     (case map_of assigned (cname c) of
        Some v \<Rightarrow> v
      | None \<Rightarrow> map_of r (cname c))"

fun update_rows ::
  "int \<Rightarrow> (string \<times> datum option) list \<Rightarrow> column_def list \<Rightarrow> row list \<Rightarrow> string + row list" where
  "update_rows i assigned cols [] = Inr []"
| "update_rows i assigned cols (r # rs) =
     (case (if selected i r then build_row (updated_cell assigned r) cols else Inr r) of
        Inl e \<Rightarrow> Inl e
      | Inr r' \<Rightarrow>
          (case update_rows i assigned cols rs of Inl e \<Rightarrow> Inl e | Inr rs' \<Rightarrow> Inr (r' # rs')))"

text \<open>
  An update and a delete by \<^verbatim>\<open>WHERE id = i\<close>, on a table with an integer column
  \<^verbatim>\<open>id\<close>. The number of rows affected is the number of rows selected.
\<close>

definition exec_update :: "database \<Rightarrow> string \<Rightarrow> (string \<times> literal) list \<Rightarrow> int \<Rightarrow> outcome" where
  "exec_update db t assigns i =
     (case map_of db t of
        None \<Rightarrow> Some (Inl ''relation does not exist'', db)
      | Some tbl \<Rightarrow>
          if \<not> modelled_columns (columns tbl) \<or> \<not> id_column_ok tbl then None
          else
            (case coerce_assignments (columns tbl) assigns of
               None \<Rightarrow> None
             | Some (Inl e) \<Rightarrow> Some (Inl e, db)
             | Some (Inr assigned) \<Rightarrow>
                 if \<not> distinct (map fst assigns)
                  then Some (Inl ''multiple assignments to same column'', db)
                 else
                   (case update_rows i assigned (columns tbl) (rows tbl) of
                      Inl e \<Rightarrow> Some (Inl e, db)
                    | Inr rs \<Rightarrow>
                        if unique_ok (tbl\<lparr>rows := rs\<rparr>)
                        then Some (Inr (length (filter (selected i) (rows tbl))),
                                   put db t (tbl\<lparr>rows := rs\<rparr>))
                        else Some (Inl ''duplicate key value violates unique constraint'', db))))"

definition exec_delete :: "database \<Rightarrow> string \<Rightarrow> int \<Rightarrow> outcome" where
  "exec_delete db t i =
     (case map_of db t of
        None \<Rightarrow> Some (Inl ''relation does not exist'', db)
      | Some tbl \<Rightarrow>
          if \<not> modelled_columns (columns tbl) \<or> \<not> id_column_ok tbl then None
          else Some (Inr (length (filter (selected i) (rows tbl))),
                     put db t (tbl\<lparr>rows := filter (\<lambda>r. \<not> selected i r) (rows tbl)\<rparr>)))"

text \<open>
  A table name of the caller's own: none that begins like the names of the store's
  catalogs or ends like the names the store gives to the sequences and indexes it
  makes for a table.
\<close>

definition own_name :: "string \<Rightarrow> bool" where
  "own_name t =
     (take 3 t \<noteq> ''pg_'' \<and> drop (length t - 4) t \<noteq> ''_seq'' \<and> drop (length t - 4) t \<noteq> ''_key''
      \<and> drop (length t - 5) t \<noteq> ''_pkey'')"

definition table_of :: "statement \<Rightarrow> string" where
  "table_of p =
     (case p of
        CreateTable t cols \<Rightarrow> t
      | InsertRow t cols vals \<Rightarrow> t
      | UpdateRows t assigns i \<Rightarrow> t
      | DeleteRows t i \<Rightarrow> t)"

definition exec_statement :: "statement \<Rightarrow> database \<Rightarrow> outcome" where
  "exec_statement p db =
     (if \<not> own_name (table_of p) then None
      else case p of
             CreateTable t cols \<Rightarrow> exec_create db t cols
           | InsertRow t cols vals \<Rightarrow> exec_insert db t cols vals
           | UpdateRows t assigns i \<Rightarrow> exec_update db t assigns i
           | DeleteRows t i \<Rightarrow> exec_delete db t i)"

text \<open>
  A text of several statements is executed one statement after the other, and as a
  whole or not at all: when one of them fails, the tables are as they were before
  the text, and only the sequences keep the values that were drawn. The number of
  rows affected is that of the last statement.
\<close>

definition rollback :: "database \<Rightarrow> database \<Rightarrow> database" where
  "rollback db0 db1 =
     map (\<lambda>entry.
            (fst entry,
             (snd entry)\<lparr>next_id := (case map_of db1 (fst entry) of
                                       None \<Rightarrow> next_id (snd entry)
                                     | Some tbl1 \<Rightarrow> next_id tbl1)\<rparr>)) db0"

fun run :: "statement list \<Rightarrow> database \<Rightarrow> nat \<Rightarrow> database \<Rightarrow> outcome" where
  "run [] db0 n db = Some (Inr n, db)"
| "run (p # ps) db0 n db =
     (case exec_statement p db of
        None \<Rightarrow> None
      | Some (Inl e, db1) \<Rightarrow> Some (Inl e, rollback db0 db1)
      | Some (Inr m, db1) \<Rightarrow> run ps db0 m db1)"

text \<open>The names the store keeps as they are written: those of at most 63 bytes.\<close>

definition short_name :: "token \<Rightarrow> bool" where
  "short_name t = (case t of Word w \<Rightarrow> length w \<le> 63 | QIdent s \<Rightarrow> length s \<le> 63 | _ \<Rightarrow> True)"

text \<open>
  The model of the store: a text with a zero-length identifier is refused; a text
  of one statement is executed as that statement; a text of several statements as
  their sequence; nothing is said about any other text.
\<close>

definition pg_model :: "(string \<Rightarrow> bool) \<Rightarrow> string \<Rightarrow> database \<Rightarrow> outcome" where
  "pg_model kw text db =
     (case tokenize text of
        None \<Rightarrow>
          if zero_length_identifier text then Some (Inl ''zero-length delimited identifier'', db)
          else None
      | Some ts \<Rightarrow>
          if \<not> list_all short_name ts then None
          else
            (case parse_tokens kw ts of
               Some p \<Rightarrow> exec_statement p db
             | None \<Rightarrow>
                 (case parse_script kw ts of
                    None \<Rightarrow> None
                  | Some [] \<Rightarrow> None
                  | Some (p # ps) \<Rightarrow> run (p # ps) db 0 db)))"

text \<open>
  The model as an executor, for the evaluation of examples: outside the model it
  fails with a message that says so, which no store does.
\<close>

definition pg_exec :: "(string \<Rightarrow> bool) \<Rightarrow> database executor" where
  "pg_exec kw text db =
     (case pg_model kw text db of
        None \<Rightarrow> (Inl ''outside the model'', db)
      | Some r \<Rightarrow> r)"

text \<open>Reading a row back by its identifier, as a lookup would.\<close>

definition lookup :: "database \<Rightarrow> string \<Rightarrow> int \<Rightarrow> row option" where
  "lookup db t i =
     (case map_of db t of
        None \<Rightarrow> None
      | Some tbl \<Rightarrow> (case filter (selected i) (rows tbl) of [] \<Rightarrow> None | r # rs \<Rightarrow> Some r))"

definition empty_world :: "database world" where
  "empty_world = \<lparr>store = [], issued = []\<rparr>"

section \<open>Auxiliary definitions\<close>

text \<open>The text that one pass of the loop of \<^verbatim>\<open>create_content_type\<close> appends for a column.\<close>

definition column_definition :: "(string \<Rightarrow> bool) \<Rightarrow> string \<times> jsonb \<Rightarrow> string" where
  "column_definition kw kv =
     quote_ident kw (fst kv) @ '' '' @ format_s (jsonb_field_text (snd kv) ''type'') @ '' ''
     @ COALESCE (jsonb_field_text (snd kv) ''constraints'') '''' @ '', ''"

text \<open>A piece that neither starts nor ends with a comma or a space.\<close>

definition solid :: "string \<Rightarrow> bool" where
  "solid x = (x \<noteq> [] \<and> hd x \<notin> set '', '' \<and> last x \<notin> set '', '')"

text \<open>A sample of the keyword table of the store, for the evaluations below; the general
  statements leave the table open.\<close>

definition kw_sample :: "string \<Rightarrow> bool" where
  "kw_sample w = (w \<in> set [''select'', ''from'', ''where'', ''table'', ''create'', ''into'',
      ''user'', ''order'', ''group'', ''primary'', ''default'', ''not'', ''null'', ''unique'',
      ''check'', ''references'', ''and'', ''or'', ''true'', ''false'', ''values''])"

text \<open>The column that \<^verbatim>\<open>id SERIAL PRIMARY KEY\<close> declares.\<close>

definition id_column :: column_def where
  "id_column = \<lparr>cname = ''id'', ctype = ''serial'', cnotnull = False, cunique = False,
                 cprimary = True, cdefault = None\<rparr>"

text \<open>The row count of an execution, if it did not fail.\<close>

definition affected :: "(string + nat) \<times> 'db \<Rightarrow> nat option" where
  "affected r = (case fst r of Inl e \<Rightarrow> None | Inr n \<Rightarrow> Some n)"

text \<open>A schema entry whose \<^verbatim>\<open>type\<close> field is present and one of the supported types.\<close>

definition typed_column :: "string \<times> jsonb \<Rightarrow> bool" where
  "typed_column kv =
     (case jsonb_field_text (snd kv) ''type'' of
        None \<Rightarrow> False
      | Some ty \<Rightarrow> ty \<in> set supported_types)"

text \<open>The collection of the usage example of the source, with one column more; the world
  after creating it in the empty store, and after inserting the example's record.\<close>

definition posts_schema :: jsonb where
  "posts_schema =
     JObj [(''title'', JObj [(''type'', JStr ''TEXT'')]),
           (''views'', JObj [(''type'', JStr ''INTEGER''), (''constraints'', JStr ''DEFAULT 0'')])]"

definition posts_world :: "database world" where
  "posts_world =
     snd (create_content_type kw_sample (pg_exec kw_sample) ''posts'' posts_schema empty_world)"

definition one_post_world :: "database world" where
  "one_post_world =
     snd (insert_into_content_type kw_sample (pg_exec kw_sample) ''posts''
            (JObj [(''title'', JStr ''First Blog'')]) posts_world)"

text \<open>The tokens of a list in parentheses, behind the opening parenthesis.\<close>

fun listed :: "token list \<Rightarrow> token list" where
  "listed [] = [Sym (CHR '')'')]"
| "listed [x] = [x, Sym (CHR '')'')]"
| "listed (x # y # ys) = x # Sym (CHR '','') # listed (y # ys)"

text \<open>The tokens of the assignments of an update.\<close>

fun assigned :: "(token \<times> token) list \<Rightarrow> token list" where
  "assigned [] = []"
| "assigned [(n, v)] = [n, Sym (CHR ''=''), v]"
| "assigned ((n, v) # y # ys) = n # Sym (CHR ''='') # v # Sym (CHR '','') # assigned (y # ys)"

text \<open>The tokens of a printed integer.\<close>

definition int_tokens :: "int \<Rightarrow> token list" where
  "int_tokens i =
     (if i < 0 then [Sym (CHR ''-''), NumLit (show_nat (nat (- i)))] else [NumLit (show_nat (nat i))])"







text \<open>
  A collection with a column that must not be NULL, after its creation in the empty
  store; and a schema whose constraints text closes the column list and goes on
  with a statement of its own.
\<close>

definition notes_schema :: jsonb where
  "notes_schema =
     JObj [(''body'', JObj [(''type'', JStr ''TEXT'')]),
           (''title'', JObj [(''type'', JStr ''TEXT''), (''constraints'', JStr ''NOT NULL'')])]"

definition notes_world :: "database world" where
  "notes_world =
     snd (create_content_type kw_sample (pg_exec kw_sample) ''notes'' notes_schema empty_world)"


text \<open>The rows of a table of the store.\<close>

definition rows_of :: "database \<Rightarrow> string \<Rightarrow> row list" where
  "rows_of db t = (case map_of db t of None \<Rightarrow> [] | Some tbl \<Rightarrow> rows tbl)"

section \<open>Facts about the statement texts\<close>

lemma insert_loop_closed:
  "insert_loop kw es (ns, vs) =
     (ns @ concat (map (\<lambda>kv. quote_ident kw (fst kv) @ '', '') es),
      vs @ concat (map (\<lambda>kv. quote_literal (jsonb_out (snd kv)) @ '', '') es))"
  by (induction es arbitrary: ns vs) auto

lemma update_loop_closed:
  "update_loop kw es acc =
     acc @ concat (map (\<lambda>kv. quote_ident kw (fst kv) @ '' = '' @ quote_literal (jsonb_out (snd kv)) @ '', '') es)"
  by (induction es arbitrary: acc) auto

lemma column_definitions_loop_closed:
  "column_definitions_loop kw es acc = Inr defs \<Longrightarrow>
     defs = acc @ concat (map (column_definition kw) es)"
proof (induction es arbitrary: acc)
  case Nil
  then show ?case by simp
next
  case (Cons kv es)
  obtain k v where kv: "kv = (k, v)" by (cases kv)
  from Cons.prems kv have
    "column_definitions_loop kw es (acc @ column_definition kw kv) = Inr defs"
    by (simp add: column_definition_def Let_def split: if_splits)
  from Cons.IH [OF this] show ?case by simp
qed

lemma join_solid_hd: "list_all solid (x # xs) \<Longrightarrow> join '', '' (x # xs) \<noteq> [] \<and> hd (join '', '' (x # xs)) \<notin> set '', ''"
  by (cases xs) (auto simp: solid_def)

lemma join_solid_last: "list_all solid (x # xs) \<Longrightarrow> last (join '', '' (x # xs)) \<notin> set '', ''"
proof (induction xs arbitrary: x)
  case Nil
  then show ?case by (simp add: solid_def)
next
  case (Cons y ys)
  have "join '', '' (y # ys) \<noteq> []" using Cons.prems join_solid_hd [of y ys] by simp
  then show ?case using Cons by simp
qed

lemma concat_sep_join:
  "xs \<noteq> [] \<Longrightarrow> concat (map (\<lambda>x. x @ '', '') xs) = join '', '' xs @ '', ''"
  by (induction xs rule: induct_list012) auto

lemma trim_both_solid:
  assumes "x \<noteq> []" "hd x \<notin> set cs" "last x \<notin> set cs" "set t \<subseteq> set cs"
  shows "trim_both cs (x @ t) = x"
proof -
  have 1: "dropWhile (\<lambda>c. c \<in> set cs) (x @ t) = x @ t"
    using assms(1,2) by (cases x) auto
  have 2: "dropWhile (\<lambda>c. c \<in> set cs) (rev t @ rev x) = rev x"
  proof -
    have "dropWhile (\<lambda>c. c \<in> set cs) (rev t @ rev x) = dropWhile (\<lambda>c. c \<in> set cs) (rev x)"
      using assms(4) by (intro dropWhile_append2) auto
    also have "\<dots> = rev x"
      using assms(1,3) by (cases "rev x") (auto simp: last_rev hd_rev dest: arg_cong [where f = hd])
    finally show ?thesis .
  qed
  show ?thesis by (simp add: trim_both_def 1 2)
qed

lemma trim_both_pieces:
  assumes "list_all solid xs"
  shows "trim_both '', '' (concat (map (\<lambda>x. x @ '', '') xs)) = join '', '' xs"
proof (cases xs)
  case Nil
  then show ?thesis by (simp add: trim_both_def)
next
  case (Cons y ys)
  have "trim_both '', '' (join '', '' xs @ '', '') = join '', '' xs"
    using assms Cons join_solid_hd [of y ys] join_solid_last [of y ys]
    by (intro trim_both_solid) auto
  then show ?thesis using Cons concat_sep_join [of xs] by simp
qed

lemma ident_of_ident_token: "ident_of kw (ident_token kw name) = Some name"
  by (simp add: ident_of_def ident_token_def)

lemma scan_delimited_other:
  "x \<noteq> q \<Longrightarrow> tail \<noteq> [] \<Longrightarrow> scan_delimited q (x # tail) = prepend x (scan_delimited q tail)"
  by (cases tail) auto

lemma double_char_simps: "double_char q q = [q, q]" "x \<noteq> q \<Longrightarrow> double_char q x = [x]"
  by (simp_all add: double_char_def)

lemma scan_delimited_doubled:
  assumes "c \<noteq> q"
  shows "scan_delimited q (concat (map (double_char q) s) @ q # c # rest) = Some (s, c # rest)"
proof (induction s)
  case Nil
  show ?case using assms by simp
next
  case (Cons x xs)
  show ?case
  proof (cases "x = q")
    case True
    then show ?thesis using Cons by (simp add: double_char_simps prepend_def)
  next
    case False
    have "scan_delimited q (x # concat (map (double_char q) xs) @ q # c # rest)
          = prepend x (scan_delimited q (concat (map (double_char q) xs) @ q # c # rest))"
      using False by (intro scan_delimited_other) auto
    then show ?thesis using False Cons by (simp add: double_char_simps prepend_def)
  qed
qed

lemma safe_char_classes:
  assumes "lower_alpha ch \<or> digit ch \<or> ch = CHR ''_''"
  shows "\<not> upper_alpha ch" and "ident_cont ch" and "ch \<notin> set '', ''"
  using assms by (auto simp: lower_alpha_def digit_def upper_alpha_def ident_cont_def ident_start_def)

lemma to_lower_other: "\<not> upper_alpha c \<Longrightarrow> to_lower c = c"
proof -
  assume "\<not> upper_alpha c"
  then have "map_of (zip ''ABCDEFGHIJKLMNOPQRSTUVWXYZ'' ''abcdefghijklmnopqrstuvwxyz'') c = None"
    unfolding upper_alpha_def by (subst map_of_zip_is_None) simp_all
  then show ?thesis by (simp only: to_lower_def option.case)
qed

lemma safe_start_classes:
  assumes "lower_alpha c \<or> c = CHR ''_''"
  shows "ident_start c" and "c \<noteq> CHR 0x22" and "c \<noteq> CHR 0x27" and "\<not> is_space c"
    and "c \<notin> set '', ''"
  using assms by (auto simp: lower_alpha_def ident_start_def is_space_def)

lemma safe_ident_chars:
  assumes "safe_ident s"
  shows "s \<noteq> []" and "ident_start (hd s)" and "list_all ident_cont s" and "map to_lower s = s"
    and "hd s \<noteq> CHR 0x22" and "hd s \<noteq> CHR 0x27" and "\<not> is_space (hd s)"
    and "hd s \<notin> set '', ''" and "last s \<notin> set '', ''"
proof -
  obtain c cs where s: "s = c # cs" using assms by (cases s) (auto simp: safe_ident_def)
  have c: "lower_alpha c \<or> c = CHR ''_''"
    and all: "list_all (\<lambda>ch. lower_alpha ch \<or> digit ch \<or> ch = CHR ''_'') s"
    using assms s by (auto simp: safe_ident_def)
  show "s \<noteq> []" using s by simp
  show "ident_start (hd s)" "hd s \<noteq> CHR 0x22" "hd s \<noteq> CHR 0x27" "\<not> is_space (hd s)"
    "hd s \<notin> set '', ''"
    using safe_start_classes [OF c] s by simp_all
  show "list_all ident_cont s"
    using all safe_char_classes(2) by (simp add: list_all_iff)
  have "to_lower ch = ch" if "ch \<in> set s" for ch
    using that all safe_char_classes(1) [of ch] to_lower_other [of ch] by (simp add: list_all_iff)
  then show "map to_lower s = s" by (simp add: map_idI)
  have "last s \<in> set s" using s by simp
  then show "last s \<notin> set '', ''"
    using all safe_char_classes(3) [of "last s"] by (simp add: list_all_iff)
qed

lemma takeWhile_word:
  "list_all P s \<Longrightarrow> \<not> P c \<Longrightarrow> takeWhile P (s @ c # rest) = s \<and> dropWhile P (s @ c # rest) = c # rest"
  by (induction s) auto

lemma not_starts_quote:
  assumes "list_all ident_cont cs" and "sep \<noteq> CHR 0x27"
  shows "\<not> starts_quote (cs @ sep # rest)"
proof (cases cs)
  case Nil
  then show ?thesis using assms(2) by (simp add: starts_quote_def)
next
  case (Cons d ds)
  then have "ident_cont d" using assms(1) by simp
  then have "d \<noteq> CHR 0x27"
    by (auto simp: ident_cont_def ident_start_def lower_alpha_def upper_alpha_def digit_def)
  then show ?thesis using Cons by (simp add: starts_quote_def)
qed

lemma next_token_word:
  assumes "ident_start c" and "c \<noteq> CHR 0x22" and "c \<noteq> CHR 0x27"
    and "list_all ident_cont cs" and "\<not> ident_cont sep" and "sep \<noteq> CHR 0x27"
  shows "next_token (c # cs @ sep # rest) = Some (Word (map to_lower (c # cs)), sep # rest)"
  using assms not_starts_quote [OF assms(4,6), of rest] takeWhile_word [OF assms(4,5), of rest]
  by simp

lemma next_token_quoted:
  assumes "name \<noteq> []" and "sep \<noteq> CHR 0x22"
  shows "next_token (CHR 0x22 # concat (map (double_char (CHR 0x22)) name) @ CHR 0x22 # sep # rest)
         = Some (QIdent name, sep # rest)"
  using assms scan_delimited_doubled [OF assms(2), of name rest] by simp

lemma next_token_quote_ident:
  assumes "name \<noteq> []" and "\<not> ident_cont sep" and "sep \<noteq> CHR 0x22" and "sep \<noteq> CHR 0x27"
  shows "next_token (quote_ident kw name @ sep # rest) = Some (ident_token kw name, sep # rest)"
proof (cases "safe_ident name \<and> \<not> kw name")
  case True
  then obtain c cs where n: "name = c # cs" using safe_ident_chars(1) by (cases name) auto
  have all: "list_all ident_cont cs" and low: "map to_lower (c # cs) = c # cs"
    using True safe_ident_chars(3,4) [of name] n by auto
  have c: "ident_start c" "c \<noteq> CHR 0x22" "c \<noteq> CHR 0x27"
    using True safe_ident_chars(2,5,6) [of name] n by auto
  have "next_token (c # cs @ sep # rest) = Some (Word (c # cs), sep # rest)"
    using next_token_word [OF c all assms(2,4), of rest] low by simp
  then show ?thesis using True n by (simp add: quote_ident_def ident_token_def)
next
  case False
  have q: "quote_ident kw name = CHR 0x22 # concat (map (double_char (CHR 0x22)) name) @ [CHR 0x22]"
    unfolding quote_ident_def using False by (rule if_not_P)
  have t: "ident_token kw name = QIdent name"
    unfolding ident_token_def using False by (rule if_not_P)
  show ?thesis
    unfolding q t using next_token_quoted [OF assms(1,3), of rest] by simp
qed

lemma scan_escaped_other:
  "x \<noteq> CHR 0x5C \<Longrightarrow> x \<noteq> CHR 0x27 \<Longrightarrow> tail \<noteq> [] \<Longrightarrow>
     scan_escaped (x # tail) = prepend x (scan_escaped tail)"
  by (cases tail) auto

lemma literal_char_simps:
  "literal_char (CHR 0x27) = [CHR 0x27, CHR 0x27]" "literal_char (CHR 0x5C) = [CHR 0x5C, CHR 0x5C]"
  "x \<noteq> CHR 0x5C \<Longrightarrow> x \<noteq> CHR 0x27 \<Longrightarrow> literal_char x = [x]"
  by (simp_all add: literal_char_def)

lemma scan_escaped_doubled:
  assumes "c \<noteq> CHR 0x27"
  shows "scan_escaped (concat (map literal_char s) @ CHR 0x27 # c # rest) = Some (s, c # rest)"
proof (induction s)
  case Nil
  show ?case using assms by simp
next
  case (Cons x xs)
  consider "x = CHR 0x5C" | "x = CHR 0x27" | "x \<noteq> CHR 0x5C" "x \<noteq> CHR 0x27" by blast
  then show ?case
  proof cases
    case 1
    then show ?thesis using Cons by (simp add: literal_char_simps prepend_def unescape_def)
  next
    case 2
    then show ?thesis using Cons by (simp add: literal_char_simps prepend_def)
  next
    case 3
    have "scan_escaped (x # concat (map literal_char xs) @ CHR 0x27 # c # rest)
          = prepend x (scan_escaped (concat (map literal_char xs) @ CHR 0x27 # c # rest))"
      using 3 by (intro scan_escaped_other) auto
    then show ?thesis using 3 Cons by (simp add: literal_char_simps prepend_def)
  qed
qed

lemma literal_char_plain:
  "CHR 0x5C \<notin> set s \<Longrightarrow> map literal_char s = map (double_char (CHR 0x27)) s"
  by (induction s) (auto simp: literal_char_def double_char_def)

lemma next_token_quote_literal:
  assumes "sep \<noteq> CHR 0x27"
  shows "next_token (quote_literal s @ sep # rest) = Some (StrLit s, sep # rest)"
proof (cases "CHR 0x5C \<in> set s")
  case True
  then show ?thesis
    using scan_escaped_doubled [OF assms, of s rest]
    by (simp add: quote_literal_def starts_quote_def)
next
  case False
  have "concat (map literal_char s) = concat (map (double_char (CHR 0x27)) s)"
    using literal_char_plain [OF False] by (rule arg_cong)
  then have q: "quote_literal s = CHR 0x27 # concat (map (double_char (CHR 0x27)) s) @ [CHR 0x27]"
    using False by (simp add: quote_literal_def)
  show ?thesis
    unfolding q using scan_delimited_doubled [of sep "CHR 0x27" s rest] assms by simp
qed

lemma solid_quote_ident: "solid (quote_ident kw s)"
  using safe_ident_chars(1,8,9) [of s] by (auto simp: solid_def quote_ident_def)

lemma solid_quote_literal: "solid (quote_literal s)"
  by (auto simp: solid_def quote_literal_def)

lemma solid_append: "solid a \<Longrightarrow> solid b \<Longrightarrow> solid (a @ m @ b)"
  by (auto simp: solid_def hd_append)

lemma trim_both_nonempty:
  assumes "s \<noteq> []" and "hd s \<notin> set cs"
  shows "trim_both cs s \<noteq> []"
proof -
  obtain c r where s: "s = c # r" using assms(1) by (cases s) auto
  have 1: "dropWhile (\<lambda>c. c \<in> set cs) s = s" using assms(2) s by simp
  have "c \<in> set (rev s)" using s by simp
  then have "dropWhile (\<lambda>c. c \<in> set cs) (rev s) \<noteq> []"
    using assms(2) s by auto
  then show ?thesis by (simp add: trim_both_def 1)
qed

lemma join_nonempty: "list_all solid xs \<Longrightarrow> xs \<noteq> [] \<Longrightarrow> join '', '' xs \<noteq> []"
  using join_solid_hd by (cases xs) auto

lemma insert_statement_closed:
  "insert_statement kw t (JObj es) =
     (if es = [] then Inl EmptyRecord
      else Inr (''INSERT INTO '' @ quote_ident kw t
                @ '' ('' @ join '', '' (map (\<lambda>kv. quote_ident kw (fst kv)) es)
                @ '') VALUES ('' @ join '', '' (map (\<lambda>kv. quote_literal (jsonb_out (snd kv))) es)
                @ '');''))"
proof -
  let ?ns = "map (\<lambda>kv. quote_ident kw (fst kv)) es"
  let ?vs = "map (\<lambda>kv. quote_literal (jsonb_out (snd kv))) es"
  have sn: "list_all solid ?ns" and sv: "list_all solid ?vs"
    by (simp_all add: list_all_iff solid_quote_ident solid_quote_literal)
  have n: "trim_both '', '' (concat (map (\<lambda>kv. quote_ident kw (fst kv) @ '', '') es)) = join '', '' ?ns"
    using trim_both_pieces [OF sn] by (simp add: comp_def)
  have v: "trim_both '', '' (concat (map (\<lambda>kv. quote_literal (jsonb_out (snd kv)) @ '', '') es)) = join '', '' ?vs"
    using trim_both_pieces [OF sv] by (simp add: comp_def)
  show ?thesis
  proof (cases "es = []")
    case True
    then show ?thesis by (simp add: insert_statement_def jsonb_each_def trim_both_def)
  next
    case False
    then have "join '', '' ?ns \<noteq> []" "join '', '' ?vs \<noteq> []"
      using join_nonempty [OF sn] join_nonempty [OF sv] by simp_all
    then show ?thesis
      using False by (simp add: insert_statement_def jsonb_each_def insert_loop_closed n v)
  qed
qed

lemma update_statement_closed:
  "update_statement kw t i (JObj es) =
     (if es = [] then Inr None
      else Inr (Some (''UPDATE '' @ quote_ident kw t @ '' SET ''
                @ join '', '' (map (\<lambda>kv. quote_ident kw (fst kv) @ '' = '' @ quote_literal (jsonb_out (snd kv))) es)
                @ '' WHERE id = '' @ show_int i @ '';'')))"
proof -
  let ?ps = "map (\<lambda>kv. quote_ident kw (fst kv) @ '' = '' @ quote_literal (jsonb_out (snd kv))) es"
  have "solid (quote_ident kw k @ '' = '' @ quote_literal v)" for k v
    by (rule solid_append [OF solid_quote_ident solid_quote_literal])
  then have sp: "list_all solid ?ps"
    by (simp add: list_all_iff del: append.simps)
  have p: "trim_both '', '' (update_loop kw es []) = join '', '' ?ps"
    using trim_both_pieces [OF sp] by (simp add: comp_def update_loop_closed)
  show ?thesis
  proof (cases "es = []")
    case True
    then show ?thesis by (simp add: update_statement_def jsonb_each_def trim_both_def)
  next
    case False
    then have "join '', '' ?ps \<noteq> []" using join_nonempty [OF sp] by simp
    then show ?thesis using False by (simp add: update_statement_def jsonb_each_def p)
  qed
qed

lemma create_statement_closed:
  assumes "create_statement kw t (JObj es) = Inr stmt"
  shows "es \<noteq> []"
    and "stmt = ''CREATE TABLE IF NOT EXISTS '' @ quote_ident kw t @ '' (id SERIAL PRIMARY KEY, ''
                @ trim_both '', '' (concat (map (column_definition kw) es)) @ '');''"
proof -
  from assms obtain defs where d: "column_definitions_loop kw es [] = Inr defs"
    by (auto simp: create_statement_def jsonb_each_def split: sum.splits)
  then have defs: "defs = concat (map (column_definition kw) es)"
    using column_definitions_loop_closed [OF d] by simp
  from assms d have ne: "trim_both '', '' defs \<noteq> []"
    by (auto simp: create_statement_def jsonb_each_def Let_def split: if_splits)
  then show "es \<noteq> []" using defs by (auto simp: trim_both_def)
  from assms d ne defs show "stmt = ''CREATE TABLE IF NOT EXISTS '' @ quote_ident kw t @ '' (id SERIAL PRIMARY KEY, ''
                @ trim_both '', '' (concat (map (column_definition kw) es)) @ '');''"
    by (auto simp: create_statement_def jsonb_each_def Let_def)
qed

lemma create_statement_built:
  assumes "column_definitions_loop kw es [] = Inr defs" and "es \<noteq> []"
  shows "create_statement kw t (JObj es)
         = Inr (''CREATE TABLE IF NOT EXISTS '' @ quote_ident kw t @ '' (id SERIAL PRIMARY KEY, ''
                @ trim_both '', '' (concat (map (column_definition kw) es)) @ '');'')"
proof -
  have defs: "defs = concat (map (column_definition kw) es)"
    using column_definitions_loop_closed [OF assms(1)] by simp
  obtain e r where es: "es = e # r" using assms(2) by (cases es) auto
  have "solid (quote_ident kw (fst e))" by (rule solid_quote_ident)
  then have "defs \<noteq> [] \<and> hd defs \<notin> set '', ''"
    unfolding defs es by (auto simp: column_definition_def solid_def hd_append)
  then have "trim_both '', '' defs \<noteq> []" using trim_both_nonempty by blast
  then show ?thesis using assms(1) defs by (simp add: create_statement_def jsonb_each_def)
qed

lemma statement_separators:
  assumes "sep = CHR '' '' \<or> sep = CHR '','' \<or> sep = CHR '')''"
  shows "\<not> ident_cont sep" and "sep \<noteq> CHR 0x22" and "sep \<noteq> CHR 0x27"
  using assms by (auto simp: ident_cont_def ident_start_def lower_alpha_def upper_alpha_def digit_def)

lemma lex_Nil: "tokenize [] = Some []"
  by (subst tokenize.simps) simp

lemma lex_space: "is_space c \<Longrightarrow> tokenize (c # s) = tokenize s"
  by (subst tokenize.simps, subst (2) tokenize.simps) simp

lemma lex_token:
  "\<not> is_space c \<Longrightarrow> next_token (c # s) = Some (t, rest) \<Longrightarrow> tokenize (c # s) = map_option ((#) t) (tokenize rest)"
  by (subst tokenize.simps) (simp split: option.splits)

lemma lex_token_fail:
  "\<not> is_space c \<Longrightarrow> next_token (c # s) = None \<Longrightarrow> tokenize (c # s) = None"
  by (subst tokenize.simps) simp


lemma quote_ident_first:
  "\<exists>c cs. quote_ident kw name = c # cs \<and> \<not> is_space c"
proof (cases "safe_ident name \<and> \<not> kw name")
  case True
  then show ?thesis
    using safe_ident_chars(1,7) [of name] by (cases name) (auto simp: quote_ident_def)
next
  case False
  then show ?thesis by (auto simp: quote_ident_def is_space_def)
qed

lemma lex_ident:
  assumes "name \<noteq> []" and "\<not> ident_cont sep" and "sep \<noteq> CHR 0x22" and "sep \<noteq> CHR 0x27"
  shows "tokenize (quote_ident kw name @ sep # rest)
         = map_option ((#) (ident_token kw name)) (tokenize (sep # rest))"
proof -
  obtain c cs where q: "quote_ident kw name = c # cs" and c: "\<not> is_space c"
    using quote_ident_first by blast
  have "next_token (c # cs @ sep # rest) = Some (ident_token kw name, sep # rest)"
    using next_token_quote_ident [OF assms, of kw rest] q by simp
  then show ?thesis using lex_token [OF c] q by simp
qed

lemma lex_empty_ident:
  assumes "sep \<noteq> CHR 0x22"
  shows "tokenize (quote_ident kw [] @ sep # rest) = None"
proof -
  have "next_token (CHR 0x22 # CHR 0x22 # sep # rest) = None"
    using assms by simp
  then show ?thesis
    using lex_token_fail [of "CHR 0x22" "CHR 0x22 # sep # rest"]
    by (simp add: quote_ident_def safe_ident_def is_space_def)
qed

lemma lex_literal:
  assumes "sep \<noteq> CHR 0x27"
  shows "tokenize (quote_literal s @ sep # rest) = map_option ((#) (StrLit s)) (tokenize (sep # rest))"
proof -
  obtain c cs where q: "quote_literal s = c # cs" and c: "\<not> is_space c"
    by (cases "CHR 0x5C \<in> set s") (auto simp: quote_literal_def is_space_def)
  have "next_token (c # cs @ sep # rest) = Some (StrLit s, sep # rest)"
    using next_token_quote_literal [OF assms, of s rest] q by simp
  then show ?thesis using lex_token [OF c] q by simp
qed

lemma not_ident_start: "c \<in> set '' (),;=-'' \<Longrightarrow> \<not> ident_start c"
  by (auto simp: ident_start_def lower_alpha_def upper_alpha_def)

lemmas char_classes_plain =
  ident_start_def lower_alpha_def upper_alpha_def digit_def starts_quote_def

lemma lex_sym:
  assumes "c \<in> set ''(),;=''"
  shows "tokenize (c # s) = map_option ((#) (Sym c)) (tokenize s)"
proof -
  have 1: "\<not> is_space c" "c \<noteq> CHR 0x22" "c \<noteq> CHR 0x27" "c \<noteq> CHR ''E''" "c \<noteq> CHR ''e''"
    "\<not> digit c" "c \<noteq> CHR ''$''" "c \<noteq> CHR ''-''" "c \<noteq> CHR ''/''"
    using assms by (auto simp: is_space_def digit_def)
  have 2: "\<not> ident_start c" using assms by (intro not_ident_start) auto
  have "next_token (c # s) = Some (Sym c, s)"
    using 1 2 by simp
  then show ?thesis using lex_token 1(1) by blast
qed

lemma lex_minus:
  assumes "digit d"
  shows "tokenize (CHR ''-'' # d # s) = map_option ((#) (Sym (CHR ''-''))) (tokenize (d # s))"
proof -
  have "d \<noteq> CHR ''-''" using assms by (auto simp: digit_def)
  then have "next_token (CHR ''-'' # d # s) = Some (Sym (CHR ''-''), d # s)"
    by (simp add: begins_def char_classes_plain)
  then show ?thesis
    using lex_token [of "CHR ''-''" "d # s"] by (simp add: is_space_def)
qed

lemma lex_step:
  "\<not> is_space c \<Longrightarrow>
     tokenize (c # s) = (case next_token (c # s) of
                      None \<Rightarrow> None
                    | Some (t, rest) \<Rightarrow> map_option ((#) t) (tokenize rest))"
  by (subst tokenize.simps) (simp split: option.splits)

lemmas char_classes =
  is_space_def ident_start_def ident_cont_def lower_alpha_def upper_alpha_def digit_def
  starts_quote_def to_lower_def begins_def

lemma lex_create_head:
  assumes "t \<noteq> []"
  shows "tokenize (''CREATE TABLE IF NOT EXISTS '' @ quote_ident kw t @ '' (id SERIAL PRIMARY KEY, '' @ r)
         = map_option (\<lambda>ts. [Word ''create'', Word ''table'', Word ''if'', Word ''not'', Word ''exists'',
                               ident_token kw t, Sym (CHR ''(''), Word ''id'', Word ''serial'',
                               Word ''primary'', Word ''key'', Sym (CHR '','')] @ ts) (tokenize r)"
proof -
  have tail: "tokenize ('' (id SERIAL PRIMARY KEY, '' @ r)
        = map_option (\<lambda>ts. [Sym (CHR ''(''), Word ''id'', Word ''serial'',
                               Word ''primary'', Word ''key'', Sym (CHR '','')] @ ts) (tokenize r)"
    by (simp add: lex_space lex_step char_classes option.map_comp comp_def)
  have mid: "tokenize (quote_ident kw t @ '' (id SERIAL PRIMARY KEY, '' @ r)
        = map_option ((#) (ident_token kw t)) (tokenize ('' (id SERIAL PRIMARY KEY, '' @ r))"
    using lex_ident [OF assms, of "CHR '' ''" kw "''(id SERIAL PRIMARY KEY, '' @ r"]
    by (simp add: char_classes)
  have head: "tokenize (''CREATE TABLE IF NOT EXISTS '' @ s)
        = map_option (\<lambda>ts. [Word ''create'', Word ''table'', Word ''if'', Word ''not'', Word ''exists''] @ ts) (tokenize s)" for s
    by (simp add: lex_space lex_step char_classes option.map_comp comp_def)
  show ?thesis
    unfolding head mid tail by (simp add: option.map_comp comp_def)
qed

lemma lex_create_prefix:
  "tokenize (''CREATE TABLE IF NOT EXISTS '' @ s)
   = map_option (\<lambda>ts. [Word ''create'', Word ''table'', Word ''if'', Word ''not'', Word ''exists''] @ ts) (tokenize s)"
  by (simp add: lex_space lex_step char_classes option.map_comp comp_def)

lemma parse_create_statement:
  "parse_statement kw (''CREATE TABLE IF NOT EXISTS '' @ s)
   = (case tokenize s of None \<Rightarrow> None | Some ts \<Rightarrow> parse_create kw ts)"
  unfolding parse_statement_def lex_create_prefix
  by (cases "tokenize s") (simp_all add: parse_tokens_def)

lemma split_columns_id:
  "split_columns [] (Word ''id'' # Word ''serial'' # Word ''primary'' # Word ''key'' # Sym (CHR '','') # ts)
   = (case split_columns [] ts of
        None \<Rightarrow> None
      | Some (pieces, rest) \<Rightarrow>
          Some ([Word ''id'', Word ''serial'', Word ''primary'', Word ''key''] # pieces, rest))"
  by simp

lemma parse_column_id:
  "parse_column kw [Word ''id'', Word ''serial'', Word ''primary'', Word ''key'']
   = (if kw ''id'' then None else Some id_column)"
  by (simp add: parse_column_def ident_of_def id_column_def)

lemma parse_columns_id:
  assumes "parse_columns kw (Word ''id'' # Word ''serial'' # Word ''primary'' # Word ''key'' # Sym (CHR '','') # ts)
           = Some (cols, rest)"
  shows "\<exists>cs. cols = id_column # cs"
  using assms unfolding parse_columns_def split_columns_id
  by (auto simp: parse_column_id split: option.splits if_splits)

lemma parse_created_table:
  assumes "parse_statement kw (''CREATE TABLE IF NOT EXISTS '' @ quote_ident kw t
             @ '' (id SERIAL PRIMARY KEY, '' @ r) = Some p"
  shows "\<exists>cs. p = CreateTable t (id_column # cs)"
proof (cases "t = []")
  case True
  define s where "s = quote_ident kw [] @ '' (id SERIAL PRIMARY KEY, '' @ r"
  have "tokenize s = None"
    unfolding s_def
    using lex_empty_ident [of "CHR '' ''" kw "''(id SERIAL PRIMARY KEY, '' @ r"] by simp
  then have "parse_statement kw (''CREATE TABLE IF NOT EXISTS '' @ s) = None"
    unfolding parse_create_statement by simp
  then show ?thesis using assms True unfolding s_def by simp
next
  case False
  from assms have
    "(case tokenize (''CREATE TABLE IF NOT EXISTS '' @ quote_ident kw t
                     @ '' (id SERIAL PRIMARY KEY, '' @ r) of
        None \<Rightarrow> None | Some ts \<Rightarrow> parse_tokens kw ts) = Some p"
    unfolding parse_statement_def .
  then obtain ts where ts: "tokenize r = Some ts"
    and p: "parse_tokens kw ([Word ''create'', Word ''table'', Word ''if'', Word ''not'', Word ''exists'',
                               ident_token kw t, Sym (CHR ''(''), Word ''id'', Word ''serial'',
                               Word ''primary'', Word ''key'', Sym (CHR '','')] @ ts) = Some p"
    unfolding lex_create_head [OF False] by (cases "tokenize r") simp_all
  from p have "parse_create kw (ident_token kw t # Sym (CHR ''('') # Word ''id'' # Word ''serial''
                 # Word ''primary'' # Word ''key'' # Sym (CHR '','') # ts) = Some p"
    by (simp add: parse_tokens_def)
  then obtain cols rest where
    c: "parse_columns kw (Word ''id'' # Word ''serial'' # Word ''primary'' # Word ''key'' # Sym (CHR '','') # ts)
        = Some (cols, rest)"
    and p': "p = CreateTable t cols"
    by (auto simp: parse_create_def ident_of_ident_token split: option.splits if_splits)
  from parse_columns_id [OF c] p' show ?thesis by blast
qed

lemma column_definitions_loop_unsupported:
  assumes "list_ex (\<lambda>kv. not_in_supported (jsonb_field_text (snd kv) ''type'')) es"
  shows "\<exists>ty. ty \<notin> set supported_types \<and> column_definitions_loop kw es acc = Inl (UnsupportedType ty)"
  using assms
proof (induction es arbitrary: acc)
  case Nil
  then show ?case by simp
next
  case (Cons kv es)
  obtain k v where kv: "kv = (k, v)" by (cases kv)
  show ?case
  proof (cases "not_in_supported (jsonb_field_text v ''type'')")
    case True
    then obtain ty where "jsonb_field_text v ''type'' = Some ty" "ty \<notin> set supported_types"
      by (auto simp: not_in_supported_def split: option.splits)
    then show ?thesis using True kv by (auto simp: format_s_def)
  next
    case False
    then have "list_ex (\<lambda>kv. not_in_supported (jsonb_field_text (snd kv) ''type'')) es"
      using Cons.prems kv by simp
    from Cons.IH [OF this] show ?thesis using False kv by (simp add: Let_def)
  qed
qed

lemma column_definitions_loop_supported:
  assumes "list_all typed_column es"
  shows "\<exists>defs. column_definitions_loop kw es acc = Inr defs"
  using assms
proof (induction es arbitrary: acc)
  case Nil
  then show ?case by simp
next
  case (Cons kv es)
  obtain k v where kv: "kv = (k, v)" by (cases kv)
  have "\<not> not_in_supported (jsonb_field_text v ''type'')"
    using Cons.prems kv by (auto simp: typed_column_def not_in_supported_def split: option.splits)
  then show ?case using Cons kv by (simp add: Let_def)
qed

lemma create_statement_exists:
  assumes "es \<noteq> []" and "list_all typed_column es"
  shows "\<exists>stmt. create_statement kw t (JObj es) = Inr stmt"
  using column_definitions_loop_supported [OF assms(2), of kw "[]"] create_statement_built [OF _ assms(1)]
  by blast

lemma issued_EXECUTE: "issued (snd (EXECUTE exec stmt w)) = issued w @ [stmt]"
  by (simp add: EXECUTE_def split: sum.splits prod.splits)

lemma issued_insert:
  "insert_statement kw t d = Inr stmt \<Longrightarrow>
     issued (snd (insert_into_content_type kw exec t d w)) = issued w @ [stmt]"
  using issued_EXECUTE [of exec stmt w]
  by (auto simp: insert_into_content_type_def split: sum.splits prod.splits)

lemma issued_update:
  "update_statement kw t i d = Inr (Some stmt) \<Longrightarrow>
     issued (snd (update_content_type_data kw exec t i d w)) = issued w @ [stmt]"
  using issued_EXECUTE [of exec stmt w]
  by (auto simp: update_content_type_data_def split: sum.splits prod.splits)

lemma issued_delete:
  "issued (snd (delete_content_type_data kw exec t i w)) = issued w @ [delete_statement kw t i]"
  using issued_EXECUTE [of exec "delete_statement kw t i" w]
  by (auto simp: delete_content_type_data_def split: sum.splits prod.splits)

lemma issued_create:
  "create_statement kw t d = Inr stmt \<Longrightarrow>
     issued (snd (create_content_type kw exec t d w)) = issued w @ [stmt]"
  using issued_EXECUTE [of exec stmt w]
  by (auto simp: create_content_type_def split: sum.splits prod.splits)


lemma tokenize_idents:
  assumes "names \<noteq> []" and "[] \<notin> set names"
  shows "tokenize (join '', '' (map (quote_ident kw) names) @ CHR '')'' # rest)
         = map_option ((@) (listed (map (ident_token kw) names))) (tokenize rest)"
  using assms
proof (induction names rule: induct_list012)
  case 1
  then show ?case by simp
next
  case (2 x)
  then have x: "x \<noteq> []" by auto
  have "tokenize (quote_ident kw x @ CHR '')'' # rest)
        = map_option ((#) (ident_token kw x)) (tokenize (CHR '')'' # rest))"
    by (rule lex_ident [OF x]) (simp_all add: char_classes)
  also have "tokenize (CHR '')'' # rest) = map_option ((#) (Sym (CHR '')''))) (tokenize rest)"
    by (rule lex_sym) simp
  finally show ?case by (cases "tokenize rest") simp_all
next
  case (3 x y zs)
  then have x: "x \<noteq> []" and ih: "tokenize (join '', '' (map (quote_ident kw) (y # zs)) @ CHR '')'' # rest)
         = map_option ((@) (listed (map (ident_token kw) (y # zs)))) (tokenize rest)"
    by auto
  let ?tail = "join '', '' (map (quote_ident kw) (y # zs)) @ CHR '')'' # rest"
  have "tokenize (quote_ident kw x @ CHR '','' # CHR '' '' # ?tail)
        = map_option ((#) (ident_token kw x)) (tokenize (CHR '','' # CHR '' '' # ?tail))"
    by (rule lex_ident [OF x]) (simp_all add: char_classes)
  also have "tokenize (CHR '','' # CHR '' '' # ?tail) = map_option ((#) (Sym (CHR '',''))) (tokenize (CHR '' '' # ?tail))"
    by (rule lex_sym) simp
  also have "tokenize (CHR '' '' # ?tail) = tokenize ?tail"
    by (rule lex_space) (simp add: is_space_def)
  finally show ?case
    unfolding ih by (cases "tokenize rest") simp_all
qed

lemma tokenize_literals:
  assumes "texts \<noteq> []"
  shows "tokenize (join '', '' (map quote_literal texts) @ CHR '')'' # rest)
         = map_option ((@) (listed (map StrLit texts))) (tokenize rest)"
  using assms
proof (induction texts rule: induct_list012)
  case 1
  then show ?case by simp
next
  case (2 x)
  have "tokenize (quote_literal x @ CHR '')'' # rest)
        = map_option ((#) (StrLit x)) (tokenize (CHR '')'' # rest))"
    by (rule lex_literal) simp
  also have "tokenize (CHR '')'' # rest) = map_option ((#) (Sym (CHR '')''))) (tokenize rest)"
    by (rule lex_sym) simp
  finally show ?case by (cases "tokenize rest") simp_all
next
  case (3 x y zs)
  then have ih: "tokenize (join '', '' (map quote_literal (y # zs)) @ CHR '')'' # rest)
         = map_option ((@) (listed (map StrLit (y # zs)))) (tokenize rest)"
    by simp
  let ?tail = "join '', '' (map quote_literal (y # zs)) @ CHR '')'' # rest"
  have "tokenize (quote_literal x @ CHR '','' # CHR '' '' # ?tail)
        = map_option ((#) (StrLit x)) (tokenize (CHR '','' # CHR '' '' # ?tail))"
    by (rule lex_literal) simp
  also have "tokenize (CHR '','' # CHR '' '' # ?tail) = map_option ((#) (Sym (CHR '',''))) (tokenize (CHR '' '' # ?tail))"
    by (rule lex_sym) simp
  also have "tokenize (CHR '' '' # ?tail) = tokenize ?tail"
    by (rule lex_space) (simp add: is_space_def)
  finally show ?case
    unfolding ih by (cases "tokenize rest") simp_all
qed

lemma parse_idents_listed:
  "names \<noteq> [] \<Longrightarrow> parse_idents kw (listed (map (ident_token kw) names) @ ts) = Some (names, ts)"
  by (induction names rule: induct_list012) (simp_all add: ident_of_ident_token)

lemma parse_values_listed:
  "texts \<noteq> [] \<Longrightarrow> parse_values (listed (map StrLit texts) @ ts) = Some (map LStr texts, ts)"
  by (induction texts rule: induct_list012) (simp_all add: literal_of_def)

lemma tokenize_values_head:
  "tokenize ('' VALUES ('' @ s) = map_option (\<lambda>ts. Word ''values'' # Sym (CHR ''('') # ts) (tokenize s)"
  by (simp add: lex_space lex_step char_classes option.map_comp comp_def)

lemma tokenize_insert_head:
  "tokenize (''INSERT INTO '' @ s) = map_option (\<lambda>ts. Word ''insert'' # Word ''into'' # ts) (tokenize s)"
  by (simp add: lex_space lex_step char_classes option.map_comp comp_def)

lemma tokenize_semicolon: "tokenize '';'' = Some [Sym (CHR '';'')]"
  using lex_sym [of "CHR '';''" "[]"] by (simp add: lex_Nil)

lemma tokenize_open:
  assumes "t \<noteq> []"
  shows "tokenize (quote_ident kw t @ '' ('' @ s)
         = map_option (\<lambda>ts. ident_token kw t # Sym (CHR ''('') # ts) (tokenize s)"
proof -
  have "tokenize (quote_ident kw t @ CHR '' '' # CHR ''('' # s)
        = map_option ((#) (ident_token kw t)) (tokenize (CHR '' '' # CHR ''('' # s))"
    by (rule lex_ident [OF assms]) (simp_all add: char_classes)
  also have "tokenize (CHR '' '' # CHR ''('' # s) = tokenize (CHR ''('' # s)"
    by (rule lex_space) (simp add: is_space_def)
  also have "tokenize (CHR ''('' # s) = map_option ((#) (Sym (CHR ''(''))) (tokenize s)"
    by (rule lex_sym) simp
  finally show ?thesis by (simp add: option.map_comp comp_def)
qed

lemma parse_insert_statement:
  assumes "t \<noteq> []" and "es \<noteq> []" and "[] \<notin> set (map fst es)"
  shows "parse_statement kw
           (''INSERT INTO '' @ quote_ident kw t
            @ '' ('' @ join '', '' (map (\<lambda>kv. quote_ident kw (fst kv)) es)
            @ '') VALUES ('' @ join '', '' (map (\<lambda>kv. quote_literal (jsonb_out (snd kv))) es)
            @ '');'')
         = Some (InsertRow t (map fst es) (map (\<lambda>kv. LStr (jsonb_out (snd kv))) es))"
proof -
  define names where "names = map fst es"
  define texts where "texts = map (\<lambda>kv. jsonb_out (snd kv)) es"
  define N where "N = join '', '' (map (quote_ident kw) names)"
  define L where "L = join '', '' (map quote_literal texts)"
  have ne: "names \<noteq> []" "texts \<noteq> []" "[] \<notin> set names"
    using assms by (simp_all add: names_def texts_def)
  have n: "join '', '' (map (\<lambda>kv. quote_ident kw (fst kv)) es) = N"
    by (simp add: N_def names_def comp_def)
  have l: "join '', '' (map (\<lambda>kv. quote_literal (jsonb_out (snd kv))) es) = L"
    by (simp add: L_def texts_def comp_def)
  have 1: "tokenize (L @ CHR '')'' # '';'') = Some (listed (map StrLit texts) @ [Sym (CHR '';'')])"
    unfolding L_def tokenize_literals [OF ne(2)] tokenize_semicolon by simp
  have 2: "tokenize ('' VALUES ('' @ (L @ CHR '')'' # '';''))
           = Some (Word ''values'' # Sym (CHR ''('') # listed (map StrLit texts) @ [Sym (CHR '';'')])"
    unfolding tokenize_values_head 1 by simp
  have 3: "tokenize (N @ CHR '')'' # ('' VALUES ('' @ (L @ CHR '')'' # '';'')))
           = Some (listed (map (ident_token kw) names)
                   @ Word ''values'' # Sym (CHR ''('') # listed (map StrLit texts) @ [Sym (CHR '';'')])"
    unfolding N_def tokenize_idents [OF ne(1,3)] 2 by simp
  have 4: "tokenize (quote_ident kw t @ '' ('' @ (N @ CHR '')'' # ('' VALUES ('' @ (L @ CHR '')'' # '';''))))
           = Some (ident_token kw t # Sym (CHR ''('') # listed (map (ident_token kw) names)
                   @ Word ''values'' # Sym (CHR ''('') # listed (map StrLit texts) @ [Sym (CHR '';'')])"
    unfolding tokenize_open [OF assms(1)] 3 by simp
  have 5: "tokenize (''INSERT INTO '' @ (quote_ident kw t @ '' ('' @ (N @ CHR '')'' # ('' VALUES ('' @ (L @ CHR '')'' # '';'')))))
           = Some (Word ''insert'' # Word ''into'' # ident_token kw t # Sym (CHR ''('')
                   # listed (map (ident_token kw) names)
                   @ Word ''values'' # Sym (CHR ''('') # listed (map StrLit texts) @ [Sym (CHR '';'')])"
    unfolding tokenize_insert_head 4 by simp
  have shape: "''INSERT INTO '' @ quote_ident kw t
            @ '' ('' @ join '', '' (map (\<lambda>kv. quote_ident kw (fst kv)) es)
            @ '') VALUES ('' @ join '', '' (map (\<lambda>kv. quote_literal (jsonb_out (snd kv))) es)
            @ '');''
          = ''INSERT INTO '' @ (quote_ident kw t @ '' ('' @ (N @ CHR '')'' # ('' VALUES ('' @ (L @ CHR '')'' # '';''))))"
    unfolding n l by simp
  have "parse_tokens kw (Word ''insert'' # Word ''into'' # ident_token kw t # Sym (CHR ''('')
                   # listed (map (ident_token kw) names)
                   @ Word ''values'' # Sym (CHR ''('') # listed (map StrLit texts) @ [Sym (CHR '';'')])
        = Some (InsertRow t names (map LStr texts))"
    using parse_idents_listed [OF ne(1), of kw] parse_values_listed [OF ne(2)]
    by (simp add: parse_tokens_def parse_insert_def ident_of_ident_token statement_end_def)
  then show ?thesis
    unfolding shape parse_statement_def 5 by (simp add: names_def texts_def comp_def)
qed

lemma digit_char_props:
  assumes "d < 10"
  shows "digit (digit_char d)" and "digit_val (digit_char d) = d"
proof -
  from assms have "d \<in> {0, 1, 2, 3, 4, 5, 6, 7, 8, 9}" by auto
  then show "digit (digit_char d)" and "digit_val (digit_char d) = d"
    by (auto simp: digit_char_def digit_def digit_val_def)
qed

lemma show_nat_digits: "show_nat n \<noteq> [] \<and> list_all digit (show_nat n)"
proof (induction n rule: show_nat.induct)
  case (1 n)
  show ?case
  proof (cases "n < 10")
    case True
    then show ?thesis by (subst (1 2) show_nat.simps) (simp add: digit_char_props)
  next
    case False
    then show ?thesis using 1 by (subst (1 2) show_nat.simps) (simp add: digit_char_props)
  qed
qed

lemma read_nat_snoc: "read_nat (ds @ [c]) = 10 * read_nat ds + digit_val c"
  by (simp add: read_nat_def)

lemma read_nat_show_nat: "read_nat (show_nat n) = n"
proof (induction n rule: show_nat.induct)
  case (1 n)
  show ?case
  proof (cases "n < 10")
    case True
    then show ?thesis by (subst show_nat.simps) (simp add: read_nat_def digit_char_props)
  next
    case False
    then show ?thesis
      using 1 by (subst show_nat.simps) (simp add: read_nat_snoc digit_char_props)
  qed
qed

lemma digit_classes:
  assumes "digit c"
  shows "\<not> is_space c" and "c \<noteq> CHR 0x22" and "c \<noteq> CHR 0x27" and "c \<noteq> CHR ''E''" and "c \<noteq> CHR ''e''"
    and "\<not> ident_start c"
  using assms by (auto simp: digit_def is_space_def ident_start_def lower_alpha_def upper_alpha_def)

lemma tokenize_number:
  assumes "ds \<noteq> []" and "list_all digit ds" and "\<not> digit sep" and "\<not> ident_start sep"
  shows "tokenize (ds @ sep # rest) = map_option ((#) (NumLit ds)) (tokenize (sep # rest))"
proof -
  obtain c cs where ds: "ds = c # cs" using assms(1) by (cases ds) auto
  then have c: "digit c" and cs: "list_all digit cs" using assms(2) by simp_all
  have "next_token (c # cs @ sep # rest) = Some (NumLit (c # cs), sep # rest)"
    using digit_classes [OF c] c takeWhile_word [OF cs assms(3), of rest] assms(4)
    by (simp add: begins_def)
  then show ?thesis using lex_token [of c] digit_classes(1) [OF c] ds by simp
qed

lemma tokenize_int:
  "tokenize (show_int i @ '';'') = Some (int_tokens i @ [Sym (CHR '';'')])"
proof -
  have n: "tokenize (show_nat k @ '';'') = Some [NumLit (show_nat k), Sym (CHR '';'')]" for k
    using tokenize_number [of "show_nat k" "CHR '';''" "[]"] show_nat_digits [of k] tokenize_semicolon
    by (simp add: char_classes_plain)
  show ?thesis
  proof (cases "i < 0")
    case True
    obtain d ds where d: "show_nat (nat (- i)) = d # ds" "digit d"
      using show_nat_digits [of "nat (- i)"] by (cases "show_nat (nat (- i))") auto
    have "tokenize (CHR ''-'' # show_nat (nat (- i)) @ '';'')
          = map_option ((#) (Sym (CHR ''-''))) (tokenize (show_nat (nat (- i)) @ '';''))"
      unfolding d(1) using lex_minus [OF d(2)] by simp
    then show ?thesis using True n by (simp add: show_int_def int_tokens_def)
  next
    case False
    then show ?thesis using n by (simp add: show_int_def int_tokens_def)
  qed
qed

lemma tokenize_where:
  "tokenize ('' WHERE id = '' @ show_int i @ '';'')
   = Some (Word ''where'' # Word ''id'' # Sym (CHR ''='') # int_tokens i @ [Sym (CHR '';'')])"
proof -
  have "tokenize ('' WHERE id = '' @ s)
        = map_option (\<lambda>ts. Word ''where'' # Word ''id'' # Sym (CHR ''='') # ts) (tokenize s)" for s
    by (simp add: lex_space lex_step char_classes option.map_comp comp_def)
  then show ?thesis by (simp only: tokenize_int option.map)
qed

lemma parse_where_int:
  "parse_where (Word ''where'' # Word ''id'' # Sym (CHR ''='') # int_tokens i @ [Sym (CHR '';'')]) = Some i"
  by (simp add: parse_where_def int_tokens_def read_nat_show_nat)

lemma parse_delete_statement:
  assumes "t \<noteq> []"
  shows "parse_statement kw (delete_statement kw t i) = Some (DeleteRows t i)"
proof -
  have head: "tokenize (''DELETE FROM '' @ s)
        = map_option (\<lambda>ts. Word ''delete'' # Word ''from'' # ts) (tokenize s)" for s
    by (simp add: lex_space lex_step char_classes option.map_comp comp_def)
  have name: "tokenize (quote_ident kw t @ ('' WHERE id = '' @ show_int i @ '';''))
        = map_option ((#) (ident_token kw t)) (tokenize ('' WHERE id = '' @ show_int i @ '';''))"
    using lex_ident [OF assms, of "CHR '' ''" kw "''WHERE id = '' @ show_int i @ '';''"]
    by (simp add: char_classes)
  have shape: "delete_statement kw t i
        = ''DELETE FROM '' @ (quote_ident kw t @ ('' WHERE id = '' @ show_int i @ '';''))"
    by (simp add: delete_statement_def)
  have "tokenize (delete_statement kw t i)
        = Some (Word ''delete'' # Word ''from'' # ident_token kw t
                # Word ''where'' # Word ''id'' # Sym (CHR ''='') # int_tokens i @ [Sym (CHR '';'')])"
    unfolding shape head name tokenize_where by simp
  then show ?thesis
    using parse_where_int [of i]
    by (simp add: parse_statement_def parse_tokens_def parse_delete_def ident_of_ident_token)
qed

lemma tokenize_assignments:
  assumes "ps \<noteq> []" and "[] \<notin> set (map fst ps)"
  shows "tokenize (join '', '' (map (\<lambda>p. quote_ident kw (fst p) @ '' = '' @ quote_literal (snd p)) ps)
                   @ CHR '' '' # rest)
         = map_option ((@) (assigned (map (\<lambda>p. (ident_token kw (fst p), StrLit (snd p))) ps)))
             (tokenize rest)"
  using assms
proof (induction ps rule: induct_list012)
  case 1
  then show ?case by simp
next
  case (2 p)
  obtain k v where p: "p = (k, v)" by (cases p)
  with 2 have k: "k \<noteq> []" by auto
  have "tokenize (quote_ident kw k @ CHR '' '' # CHR ''='' # CHR '' '' # quote_literal v @ CHR '' '' # rest)
        = map_option ((#) (ident_token kw k))
            (tokenize (CHR '' '' # CHR ''='' # CHR '' '' # quote_literal v @ CHR '' '' # rest))"
    by (rule lex_ident [OF k]) (simp_all add: char_classes)
  also have "tokenize (CHR '' '' # CHR ''='' # CHR '' '' # quote_literal v @ CHR '' '' # rest)
        = tokenize (CHR ''='' # CHR '' '' # quote_literal v @ CHR '' '' # rest)"
    by (rule lex_space) (simp add: is_space_def)
  also have "\<dots> = map_option ((#) (Sym (CHR ''=''))) (tokenize (CHR '' '' # quote_literal v @ CHR '' '' # rest))"
    by (rule lex_sym) simp
  also have "tokenize (CHR '' '' # quote_literal v @ CHR '' '' # rest) = tokenize (quote_literal v @ CHR '' '' # rest)"
    by (rule lex_space) (simp add: is_space_def)
  also have "\<dots> = map_option ((#) (StrLit v)) (tokenize (CHR '' '' # rest))"
    by (rule lex_literal) simp
  also have "tokenize (CHR '' '' # rest) = tokenize rest"
    by (rule lex_space) (simp add: is_space_def)
  finally show ?case using p by (cases "tokenize rest") simp_all
next
  case (3 p q ps)
  obtain k v where p: "p = (k, v)" by (cases p)
  with 3 have k: "k \<noteq> []" by auto
  let ?tail = "join '', '' (map (\<lambda>p. quote_ident kw (fst p) @ '' = '' @ quote_literal (snd p)) (q # ps))
               @ CHR '' '' # rest"
  have ih: "tokenize ?tail
        = map_option ((@) (assigned (map (\<lambda>p. (ident_token kw (fst p), StrLit (snd p))) (q # ps))))
            (tokenize rest)"
    using 3 by auto
  have "tokenize (quote_ident kw k @ CHR '' '' # CHR ''='' # CHR '' '' # quote_literal v @ CHR '','' # CHR '' '' # ?tail)
        = map_option ((#) (ident_token kw k))
            (tokenize (CHR '' '' # CHR ''='' # CHR '' '' # quote_literal v @ CHR '','' # CHR '' '' # ?tail))"
    by (rule lex_ident [OF k]) (simp_all add: char_classes)
  also have "tokenize (CHR '' '' # CHR ''='' # CHR '' '' # quote_literal v @ CHR '','' # CHR '' '' # ?tail)
        = tokenize (CHR ''='' # CHR '' '' # quote_literal v @ CHR '','' # CHR '' '' # ?tail)"
    by (rule lex_space) (simp add: is_space_def)
  also have "\<dots> = map_option ((#) (Sym (CHR ''='')))
                      (tokenize (CHR '' '' # quote_literal v @ CHR '','' # CHR '' '' # ?tail))"
    by (rule lex_sym) simp
  also have "tokenize (CHR '' '' # quote_literal v @ CHR '','' # CHR '' '' # ?tail)
        = tokenize (quote_literal v @ CHR '','' # CHR '' '' # ?tail)"
    by (rule lex_space) (simp add: is_space_def)
  also have "\<dots> = map_option ((#) (StrLit v)) (tokenize (CHR '','' # CHR '' '' # ?tail))"
    by (rule lex_literal) simp
  also have "tokenize (CHR '','' # CHR '' '' # ?tail)
        = map_option ((#) (Sym (CHR '',''))) (tokenize (CHR '' '' # ?tail))"
    by (rule lex_sym) simp
  also have "tokenize (CHR '' '' # ?tail) = tokenize ?tail"
    by (rule lex_space) (simp add: is_space_def)
  finally show ?case
    unfolding ih using p by (cases q; cases "tokenize rest") simp_all
qed

lemma parse_assignments_assigned:
  assumes "ps \<noteq> []" and "s \<noteq> Sym (CHR '','')"
  shows "parse_assignments kw (assigned (map (\<lambda>p. (ident_token kw (fst p), StrLit (snd p))) ps) @ s # ts)
         = Some (map (\<lambda>p. (fst p, LStr (snd p))) ps, s # ts)"
  using assms
proof (induction ps rule: induct_list012)
  case 1
  then show ?case by simp
next
  case (2 p)
  then show ?case by (cases p) (simp add: ident_of_ident_token literal_of_def)
next
  case (3 p q ps)
  then show ?case by (cases p; cases q) (simp add: ident_of_ident_token literal_of_def)
qed

lemma parse_update_statement:
  assumes "t \<noteq> []" and "es \<noteq> []" and "[] \<notin> set (map fst es)"
  shows "parse_statement kw
           (''UPDATE '' @ quote_ident kw t @ '' SET ''
            @ join '', '' (map (\<lambda>kv. quote_ident kw (fst kv) @ '' = ''
                                     @ quote_literal (jsonb_out (snd kv))) es)
            @ '' WHERE id = '' @ show_int i @ '';'')
         = Some (UpdateRows t (map (\<lambda>kv. (fst kv, LStr (jsonb_out (snd kv)))) es) i)"
proof -
  define ps where "ps = map (\<lambda>kv. (fst kv, jsonb_out (snd kv))) es"
  define A where "A = join '', '' (map (\<lambda>p. quote_ident kw (fst p) @ '' = '' @ quote_literal (snd p)) ps)"
  have ne: "ps \<noteq> []" "[] \<notin> set (map fst ps)"
    using assms by (simp_all add: ps_def comp_def)
  have a: "join '', '' (map (\<lambda>kv. quote_ident kw (fst kv) @ '' = ''
                                     @ quote_literal (jsonb_out (snd kv))) es) = A"
    by (simp add: A_def ps_def comp_def)
  have head: "tokenize (''UPDATE '' @ s) = map_option ((#) (Word ''update'')) (tokenize s)" for s
    by (simp add: lex_space lex_step char_classes option.map_comp comp_def)
  have set: "tokenize ('' SET '' @ s) = map_option ((#) (Word ''set'')) (tokenize s)" for s
    by (simp add: lex_space lex_step char_classes option.map_comp comp_def)
  have name: "tokenize (quote_ident kw t @ ('' SET '' @ s))
        = map_option ((#) (ident_token kw t)) (tokenize ('' SET '' @ s))" for s
    using lex_ident [OF assms(1), of "CHR '' ''" kw "''SET '' @ s"] by (simp add: char_classes)
  have wh: "tokenize (''WHERE id = '' @ show_int i @ '';'')
        = Some (Word ''where'' # Word ''id'' # Sym (CHR ''='') # int_tokens i @ [Sym (CHR '';'')])"
    using tokenize_where [of i] lex_space [of "CHR '' ''" "''WHERE id = '' @ show_int i @ '';''"]
    by (simp add: is_space_def)
  have 1: "tokenize (A @ CHR '' '' # (''WHERE id = '' @ show_int i @ '';''))
        = Some (assigned (map (\<lambda>p. (ident_token kw (fst p), StrLit (snd p))) ps)
                @ Word ''where'' # Word ''id'' # Sym (CHR ''='') # int_tokens i @ [Sym (CHR '';'')])"
    unfolding A_def tokenize_assignments [OF ne] wh by simp
  have shape: "''UPDATE '' @ quote_ident kw t @ '' SET ''
            @ join '', '' (map (\<lambda>kv. quote_ident kw (fst kv) @ '' = ''
                                     @ quote_literal (jsonb_out (snd kv))) es)
            @ '' WHERE id = '' @ show_int i @ '';''
        = ''UPDATE '' @ (quote_ident kw t @ ('' SET '' @ (A @ CHR '' '' # (''WHERE id = '' @ show_int i @ '';''))))"
    unfolding a by simp
  have toks: "tokenize (''UPDATE '' @ (quote_ident kw t @ ('' SET '' @ (A @ CHR '' '' # (''WHERE id = '' @ show_int i @ '';'')))))
        = Some (Word ''update'' # ident_token kw t # Word ''set''
                # assigned (map (\<lambda>p. (ident_token kw (fst p), StrLit (snd p))) ps)
                @ Word ''where'' # Word ''id'' # Sym (CHR ''='') # int_tokens i @ [Sym (CHR '';'')])"
    unfolding head name set 1 by simp
  have "parse_tokens kw (Word ''update'' # ident_token kw t # Word ''set''
                # assigned (map (\<lambda>p. (ident_token kw (fst p), StrLit (snd p))) ps)
                @ Word ''where'' # Word ''id'' # Sym (CHR ''='') # int_tokens i @ [Sym (CHR '';'')])
        = Some (UpdateRows t (map (\<lambda>p. (fst p, LStr (snd p))) ps) i)"
    using parse_assignments_assigned [OF ne(1), of "Word ''where''" kw] parse_where_int [of i]
    by (simp add: parse_tokens_def parse_update_def ident_of_ident_token)
  then show ?thesis
    unfolding shape parse_statement_def toks by (simp add: ps_def comp_def)
qed

subsection \<open>The statement of a schema of plain columns\<close>






























subsection \<open>Creating a table in the model of the store\<close>






section \<open>Properties\<close>

text \<open>
  C7. An update whose update mapping is empty returns false, hands no statement to
  the store and leaves every table as it was: the world, with its store and its
  list of issued statements, is returned unchanged, whatever the store would do.
\<close>

theorem update_empty_mapping_noop:
  "update_content_type_data kw exec table_name id' (JObj []) w = (False, w)"
  by (simp add: update_content_type_data_def update_statement_def jsonb_each_def trim_both_def)

text \<open>
  C1. Every table or column name enters a statement only through \<^verbatim>\<open>quote_ident\<close>
  (or \<^verbatim>\<open>%I\<close>), at a place where a space, a comma or a closing parenthesis follows.
  Read at such a place, the text of a non-empty name is exactly one identifier token
  that denotes the name, whatever characters the name holds. So the statement of an
  insert or an update with non-empty names, and of a delete with a non-empty table
  name, is read as that one statement on the table of that name, with the column
  names of the record as its columns; and the statement of a create-collection, if
  it can be read at all, creates the table of that name with the column \<open>id\<close> first.
  (An empty name is written as the zero-length quoted identifier, which is no token
  and which the store refuses. The type and the constraints of a column are copied
  as they are, so what a created column looks like depends on them.)
\<close>

theorem names_are_single_identifier_tokens:
  assumes "sep = CHR '' '' \<or> sep = CHR '','' \<or> sep = CHR '')''"
  shows
    "(name \<noteq> [] \<longrightarrow>
        next_token (quote_ident kw name @ sep # rest) = Some (ident_token kw name, sep # rest)
        \<and> ident_of kw (ident_token kw name) = Some name)
     \<and> (create_statement kw name (JObj es) = Inr stmt \<longrightarrow>
          stmt = ''CREATE TABLE IF NOT EXISTS '' @ quote_ident kw name
                 @ '' (id SERIAL PRIMARY KEY, ''
                 @ trim_both '', '' (concat (map (\<lambda>kv.
                     quote_ident kw (fst kv) @ '' '' @ format_s (jsonb_field_text (snd kv) ''type'')
                     @ '' '' @ COALESCE (jsonb_field_text (snd kv) ''constraints'') '''' @ '', '') es))
                 @ '');'')
     \<and> (create_statement kw name (JObj es) = Inr stmt \<and> parse_statement kw stmt = Some p \<longrightarrow>
          (\<exists>cs. p = CreateTable name (id_column # cs)))
     \<and> (name \<noteq> [] \<and> es \<noteq> [] \<and> [] \<notin> set (map fst es) \<longrightarrow>
          (\<exists>s. insert_statement kw name (JObj es) = Inr s
             \<and> parse_statement kw s
                 = Some (InsertRow name (map fst es) (map (\<lambda>kv. LStr (jsonb_out (snd kv))) es)))
          \<and> (\<exists>s. update_statement kw name i (JObj es) = Inr (Some s)
             \<and> parse_statement kw s
                 = Some (UpdateRows name (map (\<lambda>kv. (fst kv, LStr (jsonb_out (snd kv)))) es) i)))
     \<and> (name \<noteq> [] \<longrightarrow> parse_statement kw (delete_statement kw name i) = Some (DeleteRows name i))"
proof -
  note sep = statement_separators [OF assms]
  have 1: "name \<noteq> [] \<longrightarrow>
        next_token (quote_ident kw name @ sep # rest) = Some (ident_token kw name, sep # rest)
        \<and> ident_of kw (ident_token kw name) = Some name"
    using next_token_quote_ident [OF _ sep] ident_of_ident_token by simp
  have 0: "create_statement kw name (JObj es) = Inr stmt \<longrightarrow>
          stmt = ''CREATE TABLE IF NOT EXISTS '' @ quote_ident kw name
                 @ '' (id SERIAL PRIMARY KEY, ''
                 @ trim_both '', '' (concat (map (\<lambda>kv.
                     quote_ident kw (fst kv) @ '' '' @ format_s (jsonb_field_text (snd kv) ''type'')
                     @ '' '' @ COALESCE (jsonb_field_text (snd kv) ''constraints'') '''' @ '', '') es))
                 @ '');''"
    using create_statement_closed(2) [of kw name es stmt]
    by (simp add: column_definition_def [abs_def])
  have 2: "create_statement kw name (JObj es) = Inr stmt \<and> parse_statement kw stmt = Some p \<longrightarrow>
          (\<exists>cs. p = CreateTable name (id_column # cs))"
  proof
    assume a: "create_statement kw name (JObj es) = Inr stmt \<and> parse_statement kw stmt = Some p"
    then have "stmt = ''CREATE TABLE IF NOT EXISTS '' @ quote_ident kw name @ '' (id SERIAL PRIMARY KEY, ''
                @ (trim_both '', '' (concat (map (column_definition kw) es)) @ '');'')"
      using create_statement_closed(2) [of kw name es stmt] by simp
    with a show "\<exists>cs. p = CreateTable name (id_column # cs)"
      using parse_created_table [of kw name _ p] by blast
  qed
  have 3: "name \<noteq> [] \<and> es \<noteq> [] \<and> [] \<notin> set (map fst es) \<longrightarrow>
          (\<exists>s. insert_statement kw name (JObj es) = Inr s
             \<and> parse_statement kw s
                 = Some (InsertRow name (map fst es) (map (\<lambda>kv. LStr (jsonb_out (snd kv))) es)))"
  proof
    assume a: "name \<noteq> [] \<and> es \<noteq> [] \<and> [] \<notin> set (map fst es)"
    then have "insert_statement kw name (JObj es) = Inr (''INSERT INTO '' @ quote_ident kw name
                @ '' ('' @ join '', '' (map (\<lambda>kv. quote_ident kw (fst kv)) es)
                @ '') VALUES ('' @ join '', '' (map (\<lambda>kv. quote_literal (jsonb_out (snd kv))) es)
                @ '');'')"
      unfolding insert_statement_closed by simp
    moreover note parse_insert_statement [of name es kw]
    ultimately show "\<exists>s. insert_statement kw name (JObj es) = Inr s
             \<and> parse_statement kw s
                 = Some (InsertRow name (map fst es) (map (\<lambda>kv. LStr (jsonb_out (snd kv))) es))"
      using a by blast
  qed
  have 4: "name \<noteq> [] \<and> es \<noteq> [] \<and> [] \<notin> set (map fst es) \<longrightarrow>
          (\<exists>s. update_statement kw name i (JObj es) = Inr (Some s)
             \<and> parse_statement kw s
                 = Some (UpdateRows name (map (\<lambda>kv. (fst kv, LStr (jsonb_out (snd kv)))) es) i))"
  proof
    assume a: "name \<noteq> [] \<and> es \<noteq> [] \<and> [] \<notin> set (map fst es)"
    then have "update_statement kw name i (JObj es) = Inr (Some (''UPDATE '' @ quote_ident kw name @ '' SET ''
                @ join '', '' (map (\<lambda>kv. quote_ident kw (fst kv) @ '' = '' @ quote_literal (jsonb_out (snd kv))) es)
                @ '' WHERE id = '' @ show_int i @ '';''))"
      unfolding update_statement_closed by simp
    moreover note parse_update_statement [of name es kw i]
    ultimately show "\<exists>s. update_statement kw name i (JObj es) = Inr (Some s)
             \<and> parse_statement kw s
                 = Some (UpdateRows name (map (\<lambda>kv. (fst kv, LStr (jsonb_out (snd kv)))) es) i)"
      using a by blast
  qed
  have 5: "name \<noteq> [] \<longrightarrow> parse_statement kw (delete_statement kw name i) = Some (DeleteRows name i)"
    using parse_delete_statement by blast
  from 0 1 2 3 4 5 show ?thesis by blast
qed

theorem names_are_single_identifier_tokens_witness:
  "(CHR '' '' = CHR '' '' \<or> CHR '' '' = CHR '','' \<or> CHR '' '' = CHR '')'')
   \<and> ''x\"; DROP TABLE y; --'' \<noteq> []
   \<and> [(''k;'', JStr ''v'')] \<noteq> []
   \<and> [] \<notin> set (map fst [(''k;'', JStr ''v'')])
   \<and> next_token (quote_ident kw_sample ''x\"; DROP TABLE y; --'' @ '' (a)'')
        = Some (ident_token kw_sample ''x\"; DROP TABLE y; --'', '' (a)'')
   \<and> ident_of kw_sample (ident_token kw_sample ''x\"; DROP TABLE y; --'') = Some ''x\"; DROP TABLE y; --''
   \<and> create_statement kw_sample ''x\"; DROP TABLE y; --'' (JObj [(''k;'', JObj [(''type'', JStr ''TEXT'')])])
        = Inr ''CREATE TABLE IF NOT EXISTS \"x\"\"; DROP TABLE y; --\" (id SERIAL PRIMARY KEY, \"k;\" TEXT);''
   \<and> parse_statement kw_sample ''CREATE TABLE IF NOT EXISTS \"x\"\"; DROP TABLE y; --\" (id SERIAL PRIMARY KEY, \"k;\" TEXT);''
        = Some (CreateTable ''x\"; DROP TABLE y; --''
                  [id_column,
                   \<lparr>cname = ''k;'', ctype = ''text'', cnotnull = False, cunique = False,
                      cprimary = False, cdefault = None\<rparr>])
   \<and> insert_statement kw_sample ''x\"; DROP TABLE y; --'' (JObj [(''k;'', JStr ''v'')])
        = Inr ''INSERT INTO \"x\"\"; DROP TABLE y; --\" (\"k;\") VALUES ('\"v\"');''
   \<and> parse_statement kw_sample ''INSERT INTO \"x\"\"; DROP TABLE y; --\" (\"k;\") VALUES ('\"v\"');''
        = Some (InsertRow ''x\"; DROP TABLE y; --'' [''k;''] [LStr ''\"v\"''])
   \<and> update_statement kw_sample ''x\"; DROP TABLE y; --'' 7 (JObj [(''k;'', JStr ''v'')])
        = Inr (Some ''UPDATE \"x\"\"; DROP TABLE y; --\" SET \"k;\" = '\"v\"' WHERE id = 7;'')
   \<and> parse_statement kw_sample ''UPDATE \"x\"\"; DROP TABLE y; --\" SET \"k;\" = '\"v\"' WHERE id = 7;''
        = Some (UpdateRows ''x\"; DROP TABLE y; --'' [(''k;'', LStr ''\"v\"'')] 7)
   \<and> parse_statement kw_sample (delete_statement kw_sample ''x\"; DROP TABLE y; --'' 7)
        = Some (DeleteRows ''x\"; DROP TABLE y; --'' 7)"
proof -
  let ?n = "''x\"; DROP TABLE y; --''"
  let ?es = "[(''k;'', JStr ''v'')]"
  note inst = names_are_single_identifier_tokens [of "CHR '' ''" ?n kw_sample "''(a)''" ?es _ _ 7]
  have s: "CHR '' '' = CHR '' '' \<or> CHR '' '' = CHR '','' \<or> CHR '' '' = CHR '')''" by simp
  have n: "?n \<noteq> []" by simp
  have e: "?es \<noteq> []" by simp
  have k: "[] \<notin> set (map fst ?es)" by simp
  have c: "create_statement kw_sample ?n (JObj [(''k;'', JObj [(''type'', JStr ''TEXT'')])])
        = Inr ''CREATE TABLE IF NOT EXISTS \"x\"\"; DROP TABLE y; --\" (id SERIAL PRIMARY KEY, \"k;\" TEXT);''"
    by code_simp
  have pc: "parse_statement kw_sample ''CREATE TABLE IF NOT EXISTS \"x\"\"; DROP TABLE y; --\" (id SERIAL PRIMARY KEY, \"k;\" TEXT);''
        = Some (CreateTable ?n
                  [id_column,
                   \<lparr>cname = ''k;'', ctype = ''text'', cnotnull = False, cunique = False,
                      cprimary = False, cdefault = None\<rparr>])"
    by code_simp
  have i: "insert_statement kw_sample ?n (JObj ?es)
        = Inr ''INSERT INTO \"x\"\"; DROP TABLE y; --\" (\"k;\") VALUES ('\"v\"');''"
    by code_simp
  have u: "update_statement kw_sample ?n 7 (JObj ?es)
        = Inr (Some ''UPDATE \"x\"\"; DROP TABLE y; --\" SET \"k;\" = '\"v\"' WHERE id = 7;'')"
    by code_simp
  have o: "jsonb_out (JStr ''v'') = ''\"v\"''" by code_simp
  have t: "next_token (quote_ident kw_sample ?n @ '' (a)'') = Some (ident_token kw_sample ?n, '' (a)'')"
    and t': "ident_of kw_sample (ident_token kw_sample ?n) = Some ?n"
    using inst [OF s] n by simp_all
  have pi: "parse_statement kw_sample ''INSERT INTO \"x\"\"; DROP TABLE y; --\" (\"k;\") VALUES ('\"v\"');''
        = Some (InsertRow ?n [''k;''] [LStr ''\"v\"''])"
    using inst [OF s] n i o by simp
  have pu: "parse_statement kw_sample ''UPDATE \"x\"\"; DROP TABLE y; --\" SET \"k;\" = '\"v\"' WHERE id = 7;''
        = Some (UpdateRows ?n [(''k;'', LStr ''\"v\"'')] 7)"
    using inst [OF s] n u o by simp
  have d: "parse_statement kw_sample (delete_statement kw_sample ?n 7) = Some (DeleteRows ?n 7)"
    using inst [OF s] n by simp
  show ?thesis
    by (intro conjI) (rule s n e k t t' c pc i pi u pu d)+
qed

text \<open>
  C2 (as the code has it). The insert and update loops write every value through
  \<^verbatim>\<open>quote_literal\<close>, whatever its JSON type: the piece of the statement is one string
  literal, with every single quote (and every backslash) of the quoted text
  doubled, which read back gives exactly that text. A number and a boolean are
  written in this way too: their text, the decimal form of the number and the
  words \<^verbatim>\<open>true\<close> and \<^verbatim>\<open>false\<close>, stands between single quotes.
\<close>

theorem values_are_quoted_literals:
  assumes "sep \<noteq> CHR 0x27"
  shows "next_token (quote_literal (jsonb_out v) @ sep # rest) = Some (StrLit (jsonb_out v), sep # rest)
         \<and> snd (insert_loop kw es ([], []))
             = concat (map (\<lambda>kv. quote_literal (jsonb_out (snd kv)) @ '', '') es)
         \<and> update_loop kw es []
             = concat (map (\<lambda>kv. quote_ident kw (fst kv) @ '' = ''
                                  @ quote_literal (jsonb_out (snd kv)) @ '', '') es)
         \<and> jsonb_out (JNum m d) = show_numeric m d
         \<and> jsonb_out (JBool b) = (if b then ''true'' else ''false'')
         \<and> quote_literal ''true'' = [CHR 0x27] @ ''true'' @ [CHR 0x27]
         \<and> quote_literal ''false'' = [CHR 0x27] @ ''false'' @ [CHR 0x27]
         \<and> quote_literal s
             = (if CHR 0x5C \<in> set s then ''E'' else [])
               @ CHR 0x27 # concat (map (\<lambda>c. if c = CHR 0x27 \<or> c = CHR 0x5C then [c, c] else [c]) s)
               @ [CHR 0x27]"
  using next_token_quote_literal [OF assms]
  by (simp add: insert_loop_closed update_loop_closed quote_literal_def literal_char_def [abs_def])

theorem values_are_quoted_literals_witness:
  "CHR '','' \<noteq> CHR 0x27
   \<and> next_token (quote_literal (jsonb_out (JNum 15 1)) @ '', 1'')
       = Some (StrLit (jsonb_out (JNum 15 1)), '', 1'')
   \<and> jsonb_out (JNum 15 1) = ''1.5''
   \<and> quote_literal (jsonb_out (JNum 15 1)) = [CHR 0x27] @ ''1.5'' @ [CHR 0x27]
   \<and> snd (insert_loop kw_sample [(''a'', JNum 15 1), (''b'', JBool True)] ([], []))
       = concat (map (\<lambda>kv. quote_literal (jsonb_out (snd kv)) @ '', '')
                   [(''a'', JNum 15 1), (''b'', JBool True)])
   \<and> update_loop kw_sample [(''a'', JNum 15 1), (''b'', JBool True)] []
       = [CHR ''a'', CHR '' '', CHR ''='', CHR '' '', CHR 0x27] @ ''1.5'' @ [CHR 0x27]
         @ '', b = '' @ [CHR 0x27] @ ''true'' @ [CHR 0x27] @ '', ''"
proof -
  note inst = values_are_quoted_literals [of "CHR '',''" "JNum 15 1" "'' 1''" kw_sample
      "[(''a'', JNum 15 1), (''b'', JBool True)]" 15 1 True]
  have s: "CHR '','' \<noteq> CHR 0x27" by simp
  have n: "jsonb_out (JNum 15 1) = ''1.5''" by code_simp
  have q: "quote_literal (jsonb_out (JNum 15 1)) = [CHR 0x27] @ ''1.5'' @ [CHR 0x27]" by code_simp
  have u: "update_loop kw_sample [(''a'', JNum 15 1), (''b'', JBool True)] []
       = [CHR ''a'', CHR '' '', CHR ''='', CHR '' '', CHR 0x27] @ ''1.5'' @ [CHR 0x27]
         @ '', b = '' @ [CHR 0x27] @ ''true'' @ [CHR 0x27] @ '', ''"
    by code_simp
  have t: "next_token (quote_literal (jsonb_out (JNum 15 1)) @ '', 1'')
       = Some (StrLit (jsonb_out (JNum 15 1)), '', 1'')"
    using inst [OF s] by (rule conjunct1)
  have i: "snd (insert_loop kw_sample [(''a'', JNum 15 1), (''b'', JBool True)] ([], []))
       = concat (map (\<lambda>kv. quote_literal (jsonb_out (snd kv)) @ '', '')
                   [(''a'', JNum 15 1), (''b'', JBool True)])"
    using inst [OF s] by (rule conjunct1 [OF conjunct2])
  show ?thesis
    by (intro conjI) (rule s t n q i u)+
qed

text \<open>
  C2, as stated, fails: a boolean and a number are written as the quoted texts
  \<^verbatim>\<open>'true'\<close> and \<^verbatim>\<open>'1'\<close>, and a null as the quoted word \<^verbatim>\<open>'null'\<close>.
\<close>

theorem null_number_boolean_are_quoted:
  "insert_statement kw_sample ''t'' (JObj [(''a'', JNull), (''b'', JBool True), (''n'', JNum 1 0)])
   = Inr ''INSERT INTO t (a, b, n) VALUES ('null', 'true', '1');''"
  by code_simp

text \<open>
  C4 (as the code has it). When the store fails on the statement, insert, update
  and delete return false; \<^verbatim>\<open>create_content_type\<close> has no handler and ends with the
  store's failure as an exception. In each case the statement has been issued, and
  the store is as the failed statement left it.
\<close>

theorem store_failure_outcomes:
  "(insert_statement kw t d = Inr stmt \<and> exec stmt (store w) = (Inl e, db') \<longrightarrow>
      insert_into_content_type kw exec t d w = (False, \<lparr>store = db', issued = issued w @ [stmt]\<rparr>))
   \<and> (update_statement kw t i d = Inr (Some stmt) \<and> exec stmt (store w) = (Inl e, db') \<longrightarrow>
      update_content_type_data kw exec t i d w = (False, \<lparr>store = db', issued = issued w @ [stmt]\<rparr>))
   \<and> (exec (delete_statement kw t i) (store w) = (Inl e, db') \<longrightarrow>
      delete_content_type_data kw exec t i w
        = (False, \<lparr>store = db', issued = issued w @ [delete_statement kw t i]\<rparr>))
   \<and> (create_statement kw t d = Inr stmt \<and> exec stmt (store w) = (Inl e, db') \<longrightarrow>
      create_content_type kw exec t d w
        = (Inl (StoreError e), \<lparr>store = db', issued = issued w @ [stmt]\<rparr>))"
  by (simp add: insert_into_content_type_def update_content_type_data_def
      delete_content_type_data_def create_content_type_def EXECUTE_def)

theorem store_failure_outcomes_witness:
  "(insert_statement kw_sample ''notes'' (JObj [(''body'', JStr ''x'')])
      = Inr ''INSERT INTO notes (body) VALUES ('\"x\"');''
    \<and> pg_exec kw_sample ''INSERT INTO notes (body) VALUES ('\"x\"');'' (store notes_world)
        = (Inl ''null value violates not-null constraint'',
           snd (pg_exec kw_sample ''INSERT INTO notes (body) VALUES ('\"x\"');'' (store notes_world)))
    \<and> insert_into_content_type kw_sample (pg_exec kw_sample) ''notes'' (JObj [(''body'', JStr ''x'')]) notes_world
        = (False,
           \<lparr>store = snd (pg_exec kw_sample ''INSERT INTO notes (body) VALUES ('\"x\"');'' (store notes_world)),
            issued = issued notes_world @ [''INSERT INTO notes (body) VALUES ('\"x\"');'']\<rparr>))
   \<and> (update_statement kw_sample ''notes'' 1 (JObj [(''id'', JStr ''one'')])
      = Inr (Some ''UPDATE notes SET id = '\"one\"' WHERE id = 1;'')
    \<and> pg_exec kw_sample ''UPDATE notes SET id = '\"one\"' WHERE id = 1;'' (store notes_world)
        = (Inl ''invalid input syntax for type integer'', store notes_world)
    \<and> update_content_type_data kw_sample (pg_exec kw_sample) ''notes'' 1 (JObj [(''id'', JStr ''one'')]) notes_world
        = (False,
           \<lparr>store = store notes_world,
            issued = issued notes_world @ [''UPDATE notes SET id = '\"one\"' WHERE id = 1;'']\<rparr>))
   \<and> (pg_exec kw_sample (delete_statement kw_sample ''nowhere'' 1) (store empty_world)
        = (Inl ''relation does not exist'', store empty_world)
    \<and> delete_content_type_data kw_sample (pg_exec kw_sample) ''nowhere'' 1 empty_world
        = (False, \<lparr>store = store empty_world,
                   issued = issued empty_world @ [delete_statement kw_sample ''nowhere'' 1]\<rparr>))"
proof -
  let ?ins = "''INSERT INTO notes (body) VALUES ('\"x\"');''"
  let ?upd = "''UPDATE notes SET id = '\"one\"' WHERE id = 1;''"
  have 1: "insert_statement kw_sample ''notes'' (JObj [(''body'', JStr ''x'')]) = Inr ?ins"
    by code_simp
  have 2: "pg_exec kw_sample ?ins (store notes_world)
        = (Inl ''null value violates not-null constraint'', snd (pg_exec kw_sample ?ins (store notes_world)))"
    by code_simp
  have 3: "update_statement kw_sample ''notes'' 1 (JObj [(''id'', JStr ''one'')]) = Inr (Some ?upd)"
    by code_simp
  have 4: "pg_exec kw_sample ?upd (store notes_world)
        = (Inl ''invalid input syntax for type integer'', store notes_world)"
    by code_simp
  have 5: "pg_exec kw_sample (delete_statement kw_sample ''nowhere'' 1) (store empty_world)
        = (Inl ''relation does not exist'', store empty_world)"
    by code_simp
  note ins = store_failure_outcomes [of kw_sample "''notes''" "JObj [(''body'', JStr ''x'')]" ?ins
      "pg_exec kw_sample" notes_world "''null value violates not-null constraint''"
      "snd (pg_exec kw_sample ?ins (store notes_world))"]
  have a: "insert_into_content_type kw_sample (pg_exec kw_sample) ''notes'' (JObj [(''body'', JStr ''x'')]) notes_world
        = (False, \<lparr>store = snd (pg_exec kw_sample ?ins (store notes_world)),
                   issued = issued notes_world @ [?ins]\<rparr>)"
    by (rule mp [OF conjunct1 [OF ins] conjI [OF 1 2]])
  note upd = store_failure_outcomes [of kw_sample "''notes''" "JObj [(''id'', JStr ''one'')]" ?upd
      "pg_exec kw_sample" notes_world "''invalid input syntax for type integer''" "store notes_world" 1]
  have b: "update_content_type_data kw_sample (pg_exec kw_sample) ''notes'' 1 (JObj [(''id'', JStr ''one'')]) notes_world
        = (False, \<lparr>store = store notes_world, issued = issued notes_world @ [?upd]\<rparr>)"
    by (rule mp [OF conjunct1 [OF conjunct2 [OF upd]] conjI [OF 3 4]])
  note del = store_failure_outcomes [of kw_sample "''nowhere''" _ _ "pg_exec kw_sample" empty_world
      "''relation does not exist''" "store empty_world" 1]
  have c: "delete_content_type_data kw_sample (pg_exec kw_sample) ''nowhere'' 1 empty_world
        = (False, \<lparr>store = store empty_world,
                   issued = issued empty_world @ [delete_statement kw_sample ''nowhere'' 1]\<rparr>)"
    by (rule mp [OF conjunct1 [OF conjunct2 [OF conjunct2 [OF del]]] 5])
  from 1 2 a 3 4 b 5 c show ?thesis by (intro conjI)
qed

text \<open>
  C4, as stated, fails for create-collection: the store's refusal of a default that
  is no integer leaves \<^verbatim>\<open>create_content_type\<close> as an exception, not as a result.
\<close>

theorem create_propagates_store_failure:
  "fst (create_content_type kw_sample (pg_exec kw_sample) ''t''
          (JObj [(''n'', JObj [(''type'', JStr ''INTEGER''), (''constraints'', JStr ''DEFAULT 'abc' NOT NULL'')])])
          empty_world)
   = Inl (StoreError ''invalid input syntax for type integer'')"
  by code_simp

text \<open>
  What a failed insert leaves behind: the row that the constraint refused has used
  up the value 1 of the sequence, and the next row gets 2.
\<close>

lemma refused_row_uses_up_its_id:
  "rows_of (store (snd (insert_into_content_type kw_sample (pg_exec kw_sample) ''notes''
                          (JObj [(''title'', JStr ''a'')])
                          (snd (insert_into_content_type kw_sample (pg_exec kw_sample) ''notes''
                                  (JObj [(''body'', JStr ''x'')]) notes_world))))) ''notes''
   = [[(''id'', DInt 2), (''title'', DText ''\"a\"'')]]"
  by code_simp

text \<open>
  C5. An update or delete whose statement the store executes returns true exactly
  when the store reports more than zero rows affected; with zero rows it returns
  false, as it does when the store fails.
\<close>

theorem success_iff_rows_affected:
  "(update_statement kw t i d = Inr (Some stmt) \<and> affected (exec stmt (store w)) = Some n \<longrightarrow>
      fst (update_content_type_data kw exec t i d w) = (0 < n))
   \<and> (affected (exec (delete_statement kw t i) (store w)) = Some n \<longrightarrow>
      fst (delete_content_type_data kw exec t i w) = (0 < n))
   \<and> (update_statement kw t i d = Inr (Some stmt) \<and> affected (exec stmt (store w)) = None \<longrightarrow>
      fst (update_content_type_data kw exec t i d w) = False)
   \<and> (affected (exec (delete_statement kw t i) (store w)) = None \<longrightarrow>
      fst (delete_content_type_data kw exec t i w) = False)"
  by (auto simp: update_content_type_data_def delete_content_type_data_def EXECUTE_def affected_def
      split: sum.splits prod.splits)

theorem success_iff_rows_affected_witness:
  "(update_statement kw_sample ''posts'' 1 (JObj [(''views'', JNum 7 0)])
      = Inr (Some ''UPDATE posts SET views = '7' WHERE id = 1;'')
    \<and> affected (pg_exec kw_sample ''UPDATE posts SET views = '7' WHERE id = 1;'' (store one_post_world)) = Some 1
    \<and> fst (update_content_type_data kw_sample (pg_exec kw_sample) ''posts'' 1 (JObj [(''views'', JNum 7 0)])
             one_post_world) = (0 < (1::nat)))
   \<and> (affected (pg_exec kw_sample (delete_statement kw_sample ''posts'' 2) (store one_post_world)) = Some 0
    \<and> fst (delete_content_type_data kw_sample (pg_exec kw_sample) ''posts'' 2 one_post_world) = (0 < (0::nat)))
   \<and> (affected (pg_exec kw_sample (delete_statement kw_sample ''nowhere'' 2) (store one_post_world)) = None
    \<and> fst (delete_content_type_data kw_sample (pg_exec kw_sample) ''nowhere'' 2 one_post_world) = False)"
proof -
  have 1: "update_statement kw_sample ''posts'' 1 (JObj [(''views'', JNum 7 0)])
      = Inr (Some ''UPDATE posts SET views = '7' WHERE id = 1;'')"
    by code_simp
  have 2: "affected (pg_exec kw_sample ''UPDATE posts SET views = '7' WHERE id = 1;'' (store one_post_world)) = Some 1"
    by code_simp
  have 3: "affected (pg_exec kw_sample (delete_statement kw_sample ''posts'' 2) (store one_post_world)) = Some 0"
    by code_simp
  have 4: "affected (pg_exec kw_sample (delete_statement kw_sample ''nowhere'' 2) (store one_post_world)) = None"
    by code_simp
  note upd = success_iff_rows_affected [of kw_sample "''posts''" 1 "JObj [(''views'', JNum 7 0)]"
      "''UPDATE posts SET views = '7' WHERE id = 1;''" "pg_exec kw_sample" one_post_world 1]
  have a: "fst (update_content_type_data kw_sample (pg_exec kw_sample) ''posts'' 1 (JObj [(''views'', JNum 7 0)])
             one_post_world) = (0 < (1::nat))"
    by (rule mp [OF conjunct1 [OF upd] conjI [OF 1 2]])
  note del = success_iff_rows_affected [of kw_sample "''posts''" 2 _ _ "pg_exec kw_sample" one_post_world 0]
  have b: "fst (delete_content_type_data kw_sample (pg_exec kw_sample) ''posts'' 2 one_post_world) = (0 < (0::nat))"
    by (rule mp [OF conjunct1 [OF conjunct2 [OF del]] 3])
  note del' = success_iff_rows_affected [of kw_sample "''nowhere''" 2 _ _ "pg_exec kw_sample" one_post_world]
  have c: "fst (delete_content_type_data kw_sample (pg_exec kw_sample) ''nowhere'' 2 one_post_world) = False"
    by (rule mp [OF conjunct2 [OF conjunct2 [OF conjunct2 [OF del']]] 4])
  from 1 2 3 4 a b c show ?thesis by (intro conjI)
qed

text \<open>
  What holds of C8: a column whose type tag is a text outside the seven supported
  names makes \<^verbatim>\<open>create_content_type\<close> raise the unsupported-type exception, with
  no statement issued; a type tag among the seven passes the check, and a schema
  whose columns all carry such a tag passes the whole loop.
\<close>

lemma named_type_outside_the_list_is_rejected:
  "(list_ex (\<lambda>kv. case jsonb_field_text (snd kv) ''type'' of
                     None \<Rightarrow> False | Some ty \<Rightarrow> ty \<notin> set supported_types) es \<longrightarrow>
      (\<exists>ty. ty \<notin> set supported_types
            \<and> create_content_type kw exec t (JObj es) w = (Inl (UnsupportedType ty), w)))
   \<and> (ty \<in> set supported_types \<longrightarrow> \<not> not_in_supported (Some ty))
   \<and> (list_all typed_column es \<longrightarrow> (\<exists>defs. column_definitions_loop kw es acc = Inr defs))"
proof -
  have 1: "list_ex (\<lambda>kv. case jsonb_field_text (snd kv) ''type'' of
                     None \<Rightarrow> False | Some ty \<Rightarrow> ty \<notin> set supported_types) es \<longrightarrow>
      (\<exists>ty. ty \<notin> set supported_types
            \<and> create_content_type kw exec t (JObj es) w = (Inl (UnsupportedType ty), w))"
  proof
    assume "list_ex (\<lambda>kv. case jsonb_field_text (snd kv) ''type'' of
                     None \<Rightarrow> False | Some ty \<Rightarrow> ty \<notin> set supported_types) es"
    then have "list_ex (\<lambda>kv. not_in_supported (jsonb_field_text (snd kv) ''type'')) es"
      by (simp add: not_in_supported_def)
    then obtain ty where "ty \<notin> set supported_types"
      and "column_definitions_loop kw es [] = Inl (UnsupportedType ty)"
      using column_definitions_loop_unsupported by blast
    then show "\<exists>ty. ty \<notin> set supported_types
            \<and> create_content_type kw exec t (JObj es) w = (Inl (UnsupportedType ty), w)"
      by (auto simp: create_content_type_def create_statement_def jsonb_each_def)
  qed
  have 2: "ty \<in> set supported_types \<longrightarrow> \<not> not_in_supported (Some ty)"
    by (simp add: not_in_supported_def)
  have 3: "list_all typed_column es \<longrightarrow> (\<exists>defs. column_definitions_loop kw es acc = Inr defs)"
    using column_definitions_loop_supported by blast
  from 1 2 3 show ?thesis by blast
qed

lemma unlisted_type_is_rejected:
  "create_content_type kw_sample (pg_exec kw_sample) ''t''
     (JObj [(''tags'', JObj [(''type'', JStr ''VARCHAR'')]), (''title'', JObj [(''type'', JStr ''TEXT'')])])
     empty_world = (Inl (UnsupportedType ''VARCHAR''), empty_world)"
  by code_simp

text \<open>
  C8 does not hold on the code for a column without a type tag. When the field
  \<^verbatim>\<open>type\<close> is absent or JSON null, \<open>col_type\<close> is NULL, \<^verbatim>\<open>col_type NOT IN (...)\<close> is
  NULL and not true, and the check does not fire: no exception is raised, and the
  statement is built with nothing in the place of the type, so that whatever the
  constraints text begins with is read as the type. In this way the column \<open>c\<close>
  below is declared \<^verbatim>\<open>VARCHAR(10)\<close>, and in the second schema \<^verbatim>\<open>INT\<close>, which the
  store creates; neither is one of the seven types.
\<close>

theorem column_without_type_tag_is_not_rejected:
  "\<not> not_in_supported None
   \<and> jsonb_field_text (JObj [(''type'', JNull), (''constraints'', JStr ''VARCHAR(10) NOT NULL'')]) ''type'' = None
   \<and> create_statement kw_sample ''t''
        (JObj [(''c'', JObj [(''type'', JNull), (''constraints'', JStr ''VARCHAR(10) NOT NULL'')])])
      = Inr ''CREATE TABLE IF NOT EXISTS t (id SERIAL PRIMARY KEY, c  VARCHAR(10) NOT NULL);''
   \<and> issued (snd (create_content_type kw_sample (pg_exec kw_sample) ''t''
                     (JObj [(''c'', JObj [(''type'', JNull), (''constraints'', JStr ''VARCHAR(10) NOT NULL'')])])
                     empty_world))
      = [''CREATE TABLE IF NOT EXISTS t (id SERIAL PRIMARY KEY, c  VARCHAR(10) NOT NULL);'']
   \<and> ''INT'' \<notin> set supported_types
   \<and> create_content_type kw_sample (pg_exec kw_sample) ''t''
        (JObj [(''c'', JObj [(''constraints'', JStr ''INT NOT NULL'')])]) empty_world
      = (Inr ''Table t created successfully (or already exists)'',
         \<lparr>store = [(''t'', \<lparr>columns = [id_column,
                                        \<lparr>cname = ''c'', ctype = ''int'', cnotnull = True,
                                         cunique = False, cprimary = False, cdefault = None\<rparr>],
                             rows = [], next_id = 1\<rparr>)],
          issued = [''CREATE TABLE IF NOT EXISTS t (id SERIAL PRIMARY KEY, c  INT NOT NULL);'']\<rparr>)"
  by code_simp

text \<open>
  C9 (as the code has it). Identifier sanitization never fails. Whatever the table
  name and the column names are, the empty name included, the statement is built
  and handed to the store; the empty name is written as the zero-length quoted
  identifier, and refusing it is left to the store.
\<close>

theorem names_never_fail_sanitization:
  "quote_ident kw [] = [CHR 0x22, CHR 0x22]
   \<and> (es \<noteq> [] \<longrightarrow>
        (\<exists>stmt. insert_statement kw name (JObj es) = Inr stmt
               \<and> issued (snd (insert_into_content_type kw exec name (JObj es) w)) = issued w @ [stmt]))
   \<and> (es \<noteq> [] \<longrightarrow>
        (\<exists>stmt. update_statement kw name i (JObj es) = Inr (Some stmt)
               \<and> issued (snd (update_content_type_data kw exec name i (JObj es) w)) = issued w @ [stmt]))
   \<and> (es \<noteq> [] \<and> list_all typed_column es \<longrightarrow>
        (\<exists>stmt. create_statement kw name (JObj es) = Inr stmt
               \<and> issued (snd (create_content_type kw exec name (JObj es) w)) = issued w @ [stmt]))
   \<and> issued (snd (delete_content_type_data kw exec name i w)) = issued w @ [delete_statement kw name i]"
proof -
  have 1: "quote_ident kw [] = [CHR 0x22, CHR 0x22]"
    by (simp add: quote_ident_def safe_ident_def)
  have 2: "es \<noteq> [] \<longrightarrow>
        (\<exists>stmt. insert_statement kw name (JObj es) = Inr stmt
               \<and> issued (snd (insert_into_content_type kw exec name (JObj es) w)) = issued w @ [stmt])"
    using issued_insert [of kw name "JObj es" _ exec w] by (simp add: insert_statement_closed)
  have 3: "es \<noteq> [] \<longrightarrow>
        (\<exists>stmt. update_statement kw name i (JObj es) = Inr (Some stmt)
               \<and> issued (snd (update_content_type_data kw exec name i (JObj es) w)) = issued w @ [stmt])"
    using issued_update [of kw name i "JObj es" _ exec w] by (simp add: update_statement_closed)
  have 4: "es \<noteq> [] \<and> list_all typed_column es \<longrightarrow>
        (\<exists>stmt. create_statement kw name (JObj es) = Inr stmt
               \<and> issued (snd (create_content_type kw exec name (JObj es) w)) = issued w @ [stmt])"
    using create_statement_exists [of es kw name] issued_create [of kw name "JObj es" _ exec w] by blast
  from 1 2 3 4 issued_delete [of kw exec name i w] show ?thesis by blast
qed

theorem names_never_fail_sanitization_witness:
  "[([], JNum 1 0)] \<noteq> []
   \<and> (\<exists>stmt. insert_statement kw_sample [] (JObj [([], JNum 1 0)]) = Inr stmt
          \<and> issued (snd (insert_into_content_type kw_sample (pg_exec kw_sample) [] (JObj [([], JNum 1 0)]) empty_world))
              = issued empty_world @ [stmt])
   \<and> [([], JObj [(''type'', JStr ''TEXT'')])] \<noteq> [] \<and> list_all typed_column [([], JObj [(''type'', JStr ''TEXT'')])]
   \<and> (\<exists>stmt. create_statement kw_sample [] (JObj [([], JObj [(''type'', JStr ''TEXT'')])]) = Inr stmt
          \<and> issued (snd (create_content_type kw_sample (pg_exec kw_sample) []
                             (JObj [([], JObj [(''type'', JStr ''TEXT'')])]) empty_world))
              = issued empty_world @ [stmt])"
proof -
  have 1: "list_all typed_column [([], JObj [(''type'', JStr ''TEXT'')])]" by code_simp
  from 1
    names_never_fail_sanitization [of kw_sample "[([], JNum 1 0)]" "[]" "pg_exec kw_sample" empty_world]
    names_never_fail_sanitization [of kw_sample "[([], JObj [(''type'', JStr ''TEXT'')])]" "[]" "pg_exec kw_sample" empty_world]
  show ?thesis by blast
qed

text \<open>
  C9, as stated, fails: for an empty table name and an empty column name the
  statement is built and issued, and the failure is the store's.
\<close>

theorem empty_names_reach_the_store:
  "create_content_type kw_sample (pg_exec kw_sample) [] (JObj [([], JObj [(''type'', JStr ''TEXT'')])])
     empty_world
   = (Inl (StoreError ''zero-length delimited identifier''),
      \<lparr>store = [],
       issued = [''CREATE TABLE IF NOT EXISTS \"\" (id SERIAL PRIMARY KEY, \"\" TEXT);'']\<rparr>)"
  by code_simp







text \<open>
  C3. The round trip of insert and lookup does not hold on the code. A string
  inserted into a text column is read back inside JSON double quotes, because the
  literal written into the statement is the JSON text of the value; and a record
  with a null for an integer column is refused, because the literal is the word
  \<^verbatim>\<open>null\<close> in quotes.
\<close>

theorem inserted_string_comes_back_in_json_quotes:
  "insert_statement kw_sample ''posts'' (JObj [(''title'', JStr ''First Blog'')])
     = Inr ''INSERT INTO posts (title) VALUES ('\"First Blog\"');''
   \<and> insert_into_content_type kw_sample (pg_exec kw_sample) ''posts''
         (JObj [(''title'', JStr ''First Blog'')]) posts_world = (True, one_post_world)
   \<and> lookup (store one_post_world) ''posts'' 1
       = Some [(''id'', DInt 1), (''title'', DText ''\"First Blog\"''), (''views'', DInt 0)]
   \<and> fst (insert_into_content_type kw_sample (pg_exec kw_sample) ''posts''
              (JObj [(''title'', JStr ''Second''), (''views'', JNull)]) posts_world) = False
   \<and> insert_statement kw_sample ''posts'' (JObj [(''title'', JStr ''Second''), (''views'', JNull)])
       = Inr ''INSERT INTO posts (title, views) VALUES ('\"Second\"', 'null');''
   \<and> pg_model kw_sample ''INSERT INTO posts (title, views) VALUES ('\"Second\"', 'null');''
         (store posts_world)
       = Some (Inl ''invalid input syntax for type integer'', store posts_world)"
  by code_simp

end
